theory Spec2Isabelle
  imports
    Main
    "HOL-Library.Sublist"
    "HOL-Library.Char_ord"
    "HOL-Library.List_Lexorder"
    "HOL-Library.Option_ord"
begin

section \<open>Python strings\<close>

text \<open>
  A Python \<open>str\<close> is modelled as the list of bytes of its UTF-8 encoding. Every pattern
  the program searches for is ASCII, and UTF-8 is self-synchronising, so searching,
  splitting at a newline and testing a prefix give the same answers on the bytes as on
  the code points. The non-ASCII literals of the source are written out as their bytes.
\<close>

definition newline :: char where
  "newline = CHR 0x0A"

text \<open>\<^verbatim>\<open>line.startswith(p)\<close>\<close>

definition startswith :: "string \<Rightarrow> string \<Rightarrow> bool" where
  "startswith line p = prefix p line"

text \<open>\<^verbatim>\<open>p in s\<close> for strings: \<open>p\<close> occurs in \<open>s\<close> as a contiguous run.\<close>

fun contains :: "string \<Rightarrow> string \<Rightarrow> bool" where
  "contains p [] = (p = [])"
| "contains p (c # cs) = (prefix p (c # cs) \<or> contains p cs)"

text \<open>
  \<^verbatim>\<open>s.split(c)\<close> for a one-character separator: the pieces between separators; the
  result is never empty, and a trailing separator gives a last empty piece.
\<close>

fun split_on :: "char \<Rightarrow> string \<Rightarrow> string list" where
  "split_on sep [] = [[]]"
| "split_on sep (c # cs) =
     (if c = sep then [] # split_on sep cs
      else (case split_on sep cs of
              [] \<Rightarrow> [[c]]
            | l # ls \<Rightarrow> (c # l) # ls))"

text \<open>\<^verbatim>\<open>s.split('\n')\<close>\<close>

definition split_nl :: "string \<Rightarrow> string list" where
  "split_nl s = split_on newline s"

text \<open>\<^verbatim>\<open>sep.join(parts)\<close>\<close>

fun join :: "string \<Rightarrow> string list \<Rightarrow> string" where
  "join sep [] = []"
| "join sep [l] = l"
| "join sep (l # m # ls) = l @ sep @ join sep (m # ls)"

text \<open>
  \<^verbatim>\<open>s.lower()\<close> on the ASCII letters. The program only searches the lowered text for the
  ASCII word \<open>conflict\<close> and compares a lowered file extension with ASCII extensions.
\<close>

definition lower_char :: "char \<Rightarrow> char" where
  "lower_char c =
     (let n = (of_char c :: nat) in if 65 \<le> n \<and> n \<le> 90 then char_of (n + 32) else c)"

definition lower :: "string \<Rightarrow> string" where
  "lower s = map lower_char s"

text \<open>
  \<^verbatim>\<open>s.strip()\<close>: leading and trailing white space removed. Python's white space is the
  ASCII white space (tab, line feed, vertical tab, form feed, carriage return, the four
  separators 0x1C to 0x1F, and space) and the code points U+0085, U+00A0, U+1680,
  U+2000 to U+200A, U+2028, U+2029, U+202F, U+205F and U+3000, which take two or three
  bytes in UTF-8. A lead byte of UTF-8 is never a continuation byte, so a white-space
  character at the end of a text is recognised from its last bytes; \<open>rstrip_rev\<close> works
  on the text with its last byte first.
\<close>

definition isspace :: "char \<Rightarrow> bool" where
  "isspace c = (let n = (of_char c :: nat) in (9 \<le> n \<and> n \<le> 13) \<or> (28 \<le> n \<and> n \<le> 32))"

definition isspace2 :: "char \<Rightarrow> char \<Rightarrow> bool" where
  "isspace2 a b = (a = CHR 0xC2 \<and> (b = CHR 0x85 \<or> b = CHR 0xA0))"

definition isspace3 :: "char \<Rightarrow> char \<Rightarrow> char \<Rightarrow> bool" where
  "isspace3 a b c =
     (let n = (of_char c :: nat)
      in (a = CHR 0xE1 \<and> b = CHR 0x9A \<and> n = 128)
         \<or> (a = CHR 0xE2 \<and> b = CHR 0x80
              \<and> ((128 \<le> n \<and> n \<le> 138) \<or> n = 168 \<or> n = 169 \<or> n = 175))
         \<or> (a = CHR 0xE2 \<and> b = CHR 0x81 \<and> n = 159)
         \<or> (a = CHR 0xE3 \<and> b = CHR 0x80 \<and> n = 128))"

fun lstrip :: "string \<Rightarrow> string" where
  "lstrip (a # b # c # rest) =
     (if isspace a then lstrip (b # c # rest)
      else if isspace2 a b then lstrip (c # rest)
      else if isspace3 a b c then lstrip rest
      else a # b # c # rest)"
| "lstrip [a, b] = (if isspace a then lstrip [b] else if isspace2 a b then [] else [a, b])"
| "lstrip [a] = (if isspace a then [] else [a])"
| "lstrip [] = []"

fun rstrip_rev :: "string \<Rightarrow> string" where
  "rstrip_rev (c # b # a # rest) =
     (if isspace c then rstrip_rev (b # a # rest)
      else if isspace2 b c then rstrip_rev (a # rest)
      else if isspace3 a b c then rstrip_rev rest
      else c # b # a # rest)"
| "rstrip_rev [c, b] = (if isspace c then rstrip_rev [b] else if isspace2 b c then [] else [c, b])"
| "rstrip_rev [c] = (if isspace c then [] else [c])"
| "rstrip_rev [] = []"

definition strip :: "string \<Rightarrow> string" where
  "strip s = rev (rstrip_rev (rev (lstrip s)))"

text \<open>
  \<^verbatim>\<open>s.splitlines()\<close>: lines end at a line feed, a carriage return (with a following line
  feed, if any), a vertical tab, a form feed, the separators 0x1C to 0x1E, and at the
  UTF-8 encodings of U+0085, U+2028 and U+2029; an empty last line is not reported. The
  loop carries the number of bytes of a line end still to skip, the current line and the
  lines found.
\<close>

definition is_line_end :: "char \<Rightarrow> bool" where
  "is_line_end c = (let n = (of_char c :: nat) in (10 \<le> n \<and> n \<le> 13) \<or> (28 \<le> n \<and> n \<le> 30))"

fun splitlines_loop :: "string \<Rightarrow> nat \<Rightarrow> string \<Rightarrow> string list \<Rightarrow> string list" where
  "splitlines_loop [] skip cur acc = (if cur = [] then acc else acc @ [cur])"
| "splitlines_loop (c # cs) skip cur acc =
     (if 0 < skip then splitlines_loop cs (skip - 1) cur acc
      else if c = CHR 0x0D \<and> prefix [CHR 0x0A] cs then splitlines_loop cs 1 [] (acc @ [cur])
      else if is_line_end c then splitlines_loop cs 0 [] (acc @ [cur])
      else if prefix [CHR 0xC2, CHR 0x85] (c # cs) then splitlines_loop cs 1 [] (acc @ [cur])
      else if prefix [CHR 0xE2, CHR 0x80, CHR 0xA8] (c # cs)
              \<or> prefix [CHR 0xE2, CHR 0x80, CHR 0xA9] (c # cs) then
        splitlines_loop cs 2 [] (acc @ [cur])
      else splitlines_loop cs 0 (cur @ [c]) acc)"

definition splitlines :: "string \<Rightarrow> string list" where
  "splitlines s = splitlines_loop s 0 [] []"

text \<open>
  \<^verbatim>\<open>int(s)\<close> on a string of ASCII characters: white space around, an optional sign, then
  decimal digits, where single underscores may separate digits. \<open>None\<close> is Python's
  \<open>ValueError\<close>. Which other characters \<open>int\<close> takes for decimal digits depends on the
  Unicode tables of the Python that runs the program, so the program's \<open>int\<close> is an
  operation of the host below, and this one is what the scripted host offers.
\<close>

definition is_digit :: "char \<Rightarrow> bool" where
  "is_digit c = (let n = (of_char c :: nat) in 48 \<le> n \<and> n \<le> 57)"

fun digits_ok :: "string \<Rightarrow> bool" where
  "digits_ok [] = False"
| "digits_ok [c] = is_digit c"
| "digits_ok (c # d # cs) =
     (is_digit c \<and> (if d = CHR ''_'' then digits_ok cs else digits_ok (d # cs)))"

definition digits_value :: "string \<Rightarrow> int" where
  "digits_value ds = foldl (\<lambda>v c. 10 * v + (int (of_char c) - 48)) 0 (filter is_digit ds)"

definition py_int :: "string \<Rightarrow> int option" where
  "py_int s =
     (let t = strip s;
          negative = (t \<noteq> [] \<and> hd t = CHR ''-'');
          body = (if t \<noteq> [] \<and> (hd t = CHR ''-'' \<or> hd t = CHR ''+'') then tl t else t)
      in if digits_ok body
         then Some (if negative then - digits_value body else digits_value body)
         else None)"

text \<open>
  The text after the first occurrence of a pattern, if it occurs: what a regular
  expression search has left to match after a literal.
\<close>

fun find_after :: "string \<Rightarrow> string \<Rightarrow> string option" where
  "find_after pat [] = (if pat = [] then Some [] else None)"
| "find_after pat (c # cs) =
     (if prefix pat (c # cs) then Some (drop (length pat) (c # cs)) else find_after pat cs)"

text \<open>\<open>os.path.join(a, b)\<close> on POSIX paths.\<close>

definition path_join :: "string \<Rightarrow> string \<Rightarrow> string" where
  "path_join a b =
     (if startswith b ''/'' then b
      else if a = [] \<or> last a = CHR ''/'' then a @ b
      else a @ ''/'' @ b)"

section \<open>Conflict markers and the three line scanners\<close>

definition marker_start :: string where
  "marker_start = ''<<<<<<< HEAD''"

definition marker_sep :: string where
  "marker_sep = ''=======''"

definition marker_end :: string where
  "marker_end = ''>>>>>>> ''"

text \<open>The comment lines that \<open>_resolve_keep_both\<close> generates, as UTF-8 bytes.\<close>

definition both_header :: string where
  "both_header = ''# ============ '' @
     [CHR 0xE5, CHR 0x90, CHR 0x88, CHR 0xE5, CHR 0xB9, CHR 0xB6,
      CHR 0xE5, CHR 0x86, CHR 0xB2, CHR 0xE7, CHR 0xAA, CHR 0x81] @ '' ============''"

definition both_local :: string where
  "both_local = ''# '' @
     [CHR 0xE6, CHR 0x9C, CHR 0xAC, CHR 0xE5, CHR 0x9C, CHR 0xB0,
      CHR 0xE7, CHR 0x89, CHR 0x88, CHR 0xE6, CHR 0x9C, CHR 0xAC] @ '':''"

definition both_remote :: string where
  "both_remote = ''# '' @
     [CHR 0xE8, CHR 0xBF, CHR 0x9C, CHR 0xE7, CHR 0xA8, CHR 0x8B,
      CHR 0xE7, CHR 0x89, CHR 0x88, CHR 0xE6, CHR 0x9C, CHR 0xAC] @ '':''"

definition both_footer :: string where
  "both_footer = ''# ================================''"

text \<open>
  The loop of \<open>_resolve_keep_local\<close>. The arguments after the remaining lines are the
  loop's variables \<open>in_conflict\<close>, \<open>in_remote_section\<close> and \<open>resolved_lines\<close>; the
  branches are the source's, in the source's order.
\<close>

fun keep_local_loop :: "string list \<Rightarrow> bool \<Rightarrow> bool \<Rightarrow> string list \<Rightarrow> string list" where
  "keep_local_loop [] in_conflict in_remote_section resolved_lines = resolved_lines"
| "keep_local_loop (line # rest) in_conflict in_remote_section resolved_lines =
     (if startswith line marker_start then keep_local_loop rest True False resolved_lines
      else if startswith line marker_sep then keep_local_loop rest in_conflict True resolved_lines
      else if startswith line marker_end then keep_local_loop rest False False resolved_lines
      else if \<not> in_conflict then
        keep_local_loop rest in_conflict in_remote_section (resolved_lines @ [line])
      else if in_conflict \<and> \<not> in_remote_section then
        keep_local_loop rest in_conflict in_remote_section (resolved_lines @ [line])
      else keep_local_loop rest in_conflict in_remote_section resolved_lines)"

text \<open>The loop of \<open>_resolve_keep_remote\<close>.\<close>

fun keep_remote_loop :: "string list \<Rightarrow> bool \<Rightarrow> bool \<Rightarrow> string list \<Rightarrow> string list" where
  "keep_remote_loop [] in_conflict in_remote_section resolved_lines = resolved_lines"
| "keep_remote_loop (line # rest) in_conflict in_remote_section resolved_lines =
     (if startswith line marker_start then keep_remote_loop rest True False resolved_lines
      else if startswith line marker_sep then keep_remote_loop rest in_conflict True resolved_lines
      else if startswith line marker_end then keep_remote_loop rest False False resolved_lines
      else if \<not> in_conflict then
        keep_remote_loop rest in_conflict in_remote_section (resolved_lines @ [line])
      else if in_conflict \<and> in_remote_section then
        keep_remote_loop rest in_conflict in_remote_section (resolved_lines @ [line])
      else keep_remote_loop rest in_conflict in_remote_section resolved_lines)"

text \<open>
  The loop of \<open>_resolve_keep_both\<close>, which also carries \<open>local_lines\<close> and
  \<open>remote_lines\<close>.
\<close>

fun keep_both_loop ::
  "string list \<Rightarrow> bool \<Rightarrow> bool \<Rightarrow> string list \<Rightarrow> string list \<Rightarrow> string list \<Rightarrow> string list"
where
  "keep_both_loop [] in_conflict in_remote_section local_lines remote_lines resolved_lines =
     resolved_lines"
| "keep_both_loop (line # rest) in_conflict in_remote_section local_lines remote_lines
       resolved_lines =
     (if startswith line marker_start then
        keep_both_loop rest True False [] [] (resolved_lines @ [both_header, both_local])
      else if startswith line marker_sep then
        keep_both_loop rest in_conflict True local_lines remote_lines
          (resolved_lines @ local_lines @ [both_remote])
      else if startswith line marker_end then
        keep_both_loop rest False False local_lines remote_lines
          (resolved_lines @ remote_lines @ [both_footer])
      else if \<not> in_conflict then
        keep_both_loop rest in_conflict in_remote_section local_lines remote_lines
          (resolved_lines @ [line])
      else if in_conflict \<and> \<not> in_remote_section then
        keep_both_loop rest in_conflict in_remote_section (local_lines @ [line]) remote_lines
          resolved_lines
      else if in_conflict \<and> in_remote_section then
        keep_both_loop rest in_conflict in_remote_section local_lines (remote_lines @ [line])
          resolved_lines
      else
        keep_both_loop rest in_conflict in_remote_section local_lines remote_lines
          resolved_lines)"

text \<open>
  The text each strategy hands to \<open>f.write\<close>: the content split at newlines, scanned
  from the initial loop state, and joined with newlines again.
\<close>

definition keep_local_text :: "string \<Rightarrow> string" where
  "keep_local_text content = join [newline] (keep_local_loop (split_nl content) False False [])"

definition keep_remote_text :: "string \<Rightarrow> string" where
  "keep_remote_text content = join [newline] (keep_remote_loop (split_nl content) False False [])"

definition keep_both_text :: "string \<Rightarrow> string" where
  "keep_both_text content =
     join [newline] (keep_both_loop (split_nl content) False False [] [] [])"

section \<open>The host: file system and subprocesses\<close>

text \<open>
  The exceptions the program meets. All four are subclasses of Python's \<open>Exception\<close>:
  \<open>subprocess.TimeoutExpired\<close>, the built-in \<open>TimeoutError\<close> and \<open>ValueError\<close> that
  \<open>get_repo_status\<close> raises itself, and any other exception of a library call
  (\<open>OSError\<close>, \<open>UnicodeDecodeError\<close>, \<open>sqlite3.Error\<close>, ...). The string is \<open>str(e)\<close>.
\<close>

datatype py_exception =
    TimeoutExpired string
  | TimeoutError string
  | ValueError string
  | OtherException string

fun exc_str :: "py_exception \<Rightarrow> string" where
  "exc_str (TimeoutExpired m) = m"
| "exc_str (TimeoutError m) = m"
| "exc_str (ValueError m) = m"
| "exc_str (OtherException m) = m"

fun is_TimeoutExpired :: "py_exception \<Rightarrow> bool" where
  "is_TimeoutExpired (TimeoutExpired m) = True"
| "is_TimeoutExpired e = False"

text \<open>\<open>except Exception\<close> catches every exception of the model.\<close>

fun is_Exception :: "py_exception \<Rightarrow> bool" where
  "is_Exception (TimeoutExpired m) = True"
| "is_Exception (TimeoutError m) = True"
| "is_Exception (ValueError m) = True"
| "is_Exception (OtherException m) = True"

text \<open>What \<open>subprocess.run(..., capture_output=True)\<close> returns when it returns.\<close>

record completed_process =
  returncode :: int
  stdout :: string
  stderr :: string

text \<open>
  A \<open>datetime\<close> counts microseconds on its time line; it is naive (no time zone) or
  aware. \<open>datetime.now()\<close> is naive.
\<close>

datatype datetime = Naive int | Aware int

text \<open>
  The world outside the program is a value of an arbitrary type \<open>'w\<close>, and the host gives
  the operations the program performs on it:
  \<^item> \<open>os.path.exists\<close>;
  \<^item> \<open>subprocess.run\<close> with its argument vector and working directory, which returns a
    completed process or raises, and may change the world either way;
  \<^item> reading a text file, which returns its text or raises;
  \<^item> opening a text file for writing and writing it, which may raise, and may change the
    world even then;
  \<^item> \<open>datetime.now()\<close>, in microseconds, and the text SQLite gives for
    \<open>CURRENT_TIMESTAMP\<close>;
  \<^item> what a transaction on the SQLite store meets: nothing, or the exception it raises
    (the transaction is then rolled back);
  \<^item> the runtime's \<open>datetime.fromisoformat\<close>, which returns a datetime or raises;
  \<^item> the runtime's \<open>int\<close> on a string, which returns an integer or raises
    \<open>ValueError\<close> (\<open>None\<close>).
\<close>

record 'w host =
  path_exists :: "string \<Rightarrow> 'w \<Rightarrow> bool"
  subprocess_run ::
    "string list \<Rightarrow> string option \<Rightarrow> 'w \<Rightarrow> (py_exception + completed_process) \<times> 'w"
  read_text :: "string \<Rightarrow> 'w \<Rightarrow> py_exception + string"
  write_text :: "string \<Rightarrow> string \<Rightarrow> 'w \<Rightarrow> py_exception option \<times> 'w"
  datetime_now :: "'w \<Rightarrow> int"
  current_timestamp :: "'w \<Rightarrow> string"
  sqlite_transaction :: "'w \<Rightarrow> py_exception option \<times> 'w"
  fromisoformat :: "string \<Rightarrow> py_exception + datetime"
  int_of_str :: "string \<Rightarrow> int option"

text \<open>
  The state threaded through the program: the world, and the argument vectors of the
  subprocesses invoked so far, oldest first.
\<close>

type_synonym 'w state = "'w \<times> string list list"

definition run ::
  "'w host \<Rightarrow> string list \<Rightarrow> string option \<Rightarrow> 'w state
   \<Rightarrow> (py_exception + completed_process) \<times> 'w state"
where
  "run h argv cwd s =
     (case subprocess_run h argv cwd (fst s) of
        (r, w') \<Rightarrow> (r, (w', snd s @ [argv])))"

section \<open>The conflict resolver\<close>

text \<open>
  The end of each strategy: \<^verbatim>\<open>with open(file_path, 'w') as f: f.write(text)\<close> and
  \<^verbatim>\<open>return True\<close>. An exception of the write leaves the function.
\<close>

definition write_back ::
  "'w host \<Rightarrow> string \<Rightarrow> string \<Rightarrow> 'w state \<Rightarrow> (py_exception + bool) \<times> 'w state"
where
  "write_back h file_path text s =
     (case write_text h file_path text (fst s) of
        (Some e, w') \<Rightarrow> (Inl e, (w', snd s))
      | (None, w') \<Rightarrow> (Inr True, (w', snd s)))"

definition resolve_keep_both ::
  "'w host \<Rightarrow> string \<Rightarrow> string \<Rightarrow> 'w state \<Rightarrow> (py_exception + bool) \<times> 'w state"
where
  "resolve_keep_both h file_path content s = write_back h file_path (keep_both_text content) s"

definition resolve_keep_local ::
  "'w host \<Rightarrow> string \<Rightarrow> string \<Rightarrow> 'w state \<Rightarrow> (py_exception + bool) \<times> 'w state"
where
  "resolve_keep_local h file_path content s = write_back h file_path (keep_local_text content) s"

definition resolve_keep_remote ::
  "'w host \<Rightarrow> string \<Rightarrow> string \<Rightarrow> 'w state \<Rightarrow> (py_exception + bool) \<times> 'w state"
where
  "resolve_keep_remote h file_path content s =
     write_back h file_path (keep_remote_text content) s"

text \<open>
  \<^verbatim>\<open>p.rfind(c)\<close> for a one-character \<open>c\<close>, and \<open>os.path.splitext\<close> on a POSIX path: the
  extension starts at the last dot, when that dot comes after the last slash and some
  character between the two is not a dot.
\<close>

definition rfind :: "char \<Rightarrow> string \<Rightarrow> int" where
  "rfind c p =
     (case filter (\<lambda>i. p ! i = c) (rev [0..<length p]) of
        [] \<Rightarrow> - 1
      | i # _ \<Rightarrow> int i)"

definition splitext :: "string \<Rightarrow> string \<times> string" where
  "splitext p =
     (let sepIndex = rfind (CHR ''/'') p; dotIndex = rfind (CHR ''.'') p
      in if dotIndex > sepIndex
            \<and> list_ex (\<lambda>filenameIndex. p ! filenameIndex \<noteq> CHR ''.'')
                 [nat (sepIndex + 1)..<nat dotIndex]
         then (take (nat dotIndex) p, drop (nat dotIndex) p)
         else (p, []))"

definition config_files :: "string list" where
  "config_files = [''.json'', ''.yaml'', ''.yml'', ''.conf'', ''.ini'', ''.toml'']"

definition doc_files :: "string list" where
  "doc_files = [''.md'', ''.txt'', ''.rst'', ''.doc'']"

definition smart_merge_conflict ::
  "'w host \<Rightarrow> string \<Rightarrow> string \<Rightarrow> 'w state \<Rightarrow> (py_exception + bool) \<times> 'w state"
where
  "smart_merge_conflict h file_path content s =
     (let file_ext = lower (snd (splitext file_path))
      in if List.member config_files file_ext then resolve_keep_local h file_path content s
         else if List.member doc_files file_ext then resolve_keep_both h file_path content s
         else resolve_keep_both h file_path content s)"

text \<open>
  \<open>_try_resolve_conflict\<close>: read the file; without the start marker answer \<open>True\<close> at
  once; otherwise run the strategy. Any exception (of the read, or of the write inside a
  strategy) is caught and answered with \<open>False\<close>.
\<close>

definition try_resolve_conflict ::
  "'w host \<Rightarrow> string \<Rightarrow> string \<Rightarrow> 'w state \<Rightarrow> bool \<times> 'w state"
where
  "try_resolve_conflict h file_path strategy s =
     (case read_text h file_path (fst s) of
        Inl e \<Rightarrow> (False, s)
      | Inr content \<Rightarrow>
          if \<not> contains marker_start content then (True, s)
          else
            (case (if strategy = ''smart_merge'' then smart_merge_conflict h file_path content s
                   else if strategy = ''keep_both'' then resolve_keep_both h file_path content s
                   else if strategy = ''keep_local'' then resolve_keep_local h file_path content s
                   else if strategy = ''keep_remote'' then
                     resolve_keep_remote h file_path content s
                   else resolve_keep_both h file_path content s) of
               (Inl e, s') \<Rightarrow> (False, s')
             | (Inr b, s') \<Rightarrow> (b, s')))"

subsection \<open>Conflict regions, as the specification describes them\<close>

text \<open>
  A content seen as a sequence of segments: a plain line, or a conflict region made of
  its start line, its local lines, its separator line, its remote lines and its end
  line. \<open>render\<close> gives the lines of a segment, \<open>local_view\<close> the lines that keeping the
  local variant retains.
\<close>

datatype segment =
    Plain string
  | Region string "string list" string "string list" string

fun render :: "segment \<Rightarrow> string list" where
  "render (Plain l) = [l]"
| "render (Region s loc m rem e) = s # loc @ m # rem @ [e]"

fun local_view :: "segment \<Rightarrow> string list" where
  "local_view (Plain l) = [l]"
| "local_view (Region s loc m rem e) = loc"

definition is_marker :: "string \<Rightarrow> bool" where
  "is_marker l = (startswith l marker_start \<or> startswith l marker_sep \<or> startswith l marker_end)"

text \<open>
  A segment is well delimited when the three delimiters of a region begin with the three
  markers and no other line, plain, local or remote, begins with any marker.
\<close>

fun seg_ok :: "segment \<Rightarrow> bool" where
  "seg_ok (Plain l) = (\<not> is_marker l)"
| "seg_ok (Region s loc m rem e) =
     (startswith s marker_start \<and> startswith m marker_sep \<and> startswith e marker_end
      \<and> list_all (\<lambda>l. \<not> is_marker l) loc \<and> list_all (\<lambda>l. \<not> is_marker l) rem)"

text \<open>
  Keeping the local variant, following the specification's words: a region opens at a
  start marker, its local text runs to the separator, its remote text to the end marker;
  lines outside regions and local text are kept, the three markers and the remote text
  are dropped. A separator or an end marker is a marker only inside a region.
\<close>

datatype position = Outside | InLocal | InRemote

fun keep_local_spec :: "position \<Rightarrow> string list \<Rightarrow> string list" where
  "keep_local_spec pos [] = []"
| "keep_local_spec Outside (l # ls) =
     (if startswith l marker_start then keep_local_spec InLocal ls
      else l # keep_local_spec Outside ls)"
| "keep_local_spec InLocal (l # ls) =
     (if startswith l marker_sep then keep_local_spec InRemote ls
      else l # keep_local_spec InLocal ls)"
| "keep_local_spec InRemote (l # ls) =
     (if startswith l marker_end then keep_local_spec Outside ls
      else keep_local_spec InRemote ls)"

definition keep_local_spec_text :: "string \<Rightarrow> string" where
  "keep_local_spec_text content = join [newline] (keep_local_spec Outside (split_nl content))"

section \<open>The sync executor\<close>

record GitStatus =
  is_clean :: bool
  has_conflicts :: bool
  ahead_commits :: int
  behind_commits :: int
  untracked_files :: "string list"
  modified_files :: "string list"
  staged_files :: "string list"

record PullResult =
  success :: bool
  message :: string
  conflicts :: "string list"
  auto_resolved :: bool

text \<open>\<open>PullResult(success, message, conflicts)\<close>, with the default \<open>auto_resolved = False\<close>.\<close>

definition mk_PullResult :: "bool \<Rightarrow> string \<Rightarrow> string list \<Rightarrow> PullResult" where
  "mk_PullResult ok msg cs =
     \<lparr>success = ok, message = msg, conflicts = cs, auto_resolved = False\<rparr>"

text \<open>The message prefixes of the source, as UTF-8 bytes.\<close>

definition msg_path_missing :: string where
  "msg_path_missing =
     [CHR 0xE4, CHR 0xBB, CHR 0x93, CHR 0xE5, CHR 0xBA, CHR 0x93, CHR 0xE8, CHR 0xB7, CHR 0xAF,
      CHR 0xE5, CHR 0xBE, CHR 0x84, CHR 0xE4, CHR 0xB8, CHR 0x8D, CHR 0xE5, CHR 0xAD, CHR 0x98,
      CHR 0xE5, CHR 0x9C, CHR 0xA8] @ '': ''"

definition msg_not_repo :: string where
  "msg_not_repo =
     [CHR 0xE4, CHR 0xB8, CHR 0x8D, CHR 0xE6, CHR 0x98, CHR 0xAF] @ ''Git'' @
     [CHR 0xE4, CHR 0xBB, CHR 0x93, CHR 0xE5, CHR 0xBA, CHR 0x93] @ '': ''"

definition msg_git_timeout :: string where
  "msg_git_timeout = ''Git'' @
     [CHR 0xE6, CHR 0x93, CHR 0x8D, CHR 0xE4, CHR 0xBD, CHR 0x9C, CHR 0xE8, CHR 0xB6, CHR 0x85,
      CHR 0xE6, CHR 0x97, CHR 0xB6] @ '': ''"

definition msg_unresolved :: string where
  "msg_unresolved =
     [CHR 0xE5, CHR 0xAD, CHR 0x98, CHR 0xE5, CHR 0x9C, CHR 0xA8, CHR 0xE6, CHR 0x97, CHR 0xA0,
      CHR 0xE6, CHR 0xB3, CHR 0x95, CHR 0xE8, CHR 0x87, CHR 0xAA, CHR 0xE5, CHR 0x8A, CHR 0xA8,
      CHR 0xE8, CHR 0xA7, CHR 0xA3, CHR 0xE5, CHR 0x86, CHR 0xB3, CHR 0xE7, CHR 0x9A, CHR 0x84,
      CHR 0xE5, CHR 0x86, CHR 0xB2, CHR 0xE7, CHR 0xAA, CHR 0x81] @ '': ''"

definition msg_pull_conflict :: string where
  "msg_pull_conflict = ''Pull'' @
     [CHR 0xE5, CHR 0x86, CHR 0xB2, CHR 0xE7, CHR 0xAA, CHR 0x81] @ '': ''"

definition msg_pull_failed :: string where
  "msg_pull_failed = ''Pull'' @
     [CHR 0xE5, CHR 0xA4, CHR 0xB1, CHR 0xE8, CHR 0xB4, CHR 0xA5] @ '': ''"

definition msg_pull_timeout :: string where
  "msg_pull_timeout = ''Pull'' @
     [CHR 0xE6, CHR 0x93, CHR 0x8D, CHR 0xE4, CHR 0xBD, CHR 0x9C, CHR 0xE8, CHR 0xB6, CHR 0x85,
      CHR 0xE6, CHR 0x97, CHR 0xB6] @ '': ''"

definition msg_pull_exception :: string where
  "msg_pull_exception = ''Pull'' @
     [CHR 0xE6, CHR 0x93, CHR 0x8D, CHR 0xE4, CHR 0xBD, CHR 0x9C, CHR 0xE5, CHR 0xBC, CHR 0x82,
      CHR 0xE5, CHR 0xB8, CHR 0xB8] @ '': ''"

definition msg_thread_exception :: string where
  "msg_thread_exception = ''Pull'' @
     [CHR 0xE7, CHR 0xBA, CHR 0xBF, CHR 0xE7, CHR 0xA8, CHR 0x8B, CHR 0xE5, CHR 0xBC, CHR 0x82,
      CHR 0xE5, CHR 0xB8, CHR 0xB8] @ '': ''"

text \<open>The argument vectors of the git commands.\<close>

definition cmd_rev_parse :: "string list" where
  "cmd_rev_parse = [''git'', ''rev-parse'', ''--is-inside-work-tree'']"

definition cmd_status :: "string list" where
  "cmd_status = [''git'', ''status'', ''--porcelain'']"

definition cmd_fetch :: "string list" where
  "cmd_fetch = [''git'', ''fetch'', ''--quiet'']"

definition cmd_rev_list :: "string list" where
  "cmd_rev_list =
     [''git'', ''rev-list'', ''--count'', ''--left-right'', ''HEAD...'' @ [CHR 0x40] @ ''{u}'']"

definition cmd_diff_unmerged :: "string list" where
  "cmd_diff_unmerged = [''git'', ''diff'', ''--name-only'', ''--diff-filter=U'']"

definition cmd_add :: "string \<Rightarrow> string list" where
  "cmd_add file_path = [''git'', ''add'', file_path]"

definition cmd_stash_push :: "string list" where
  "cmd_stash_push = [''git'', ''stash'', ''push'', ''-m'', ''Auto-stash before pull'']"

definition cmd_stash_pop :: "string list" where
  "cmd_stash_pop = [''git'', ''stash'', ''pop'']"

text \<open>\<^verbatim>\<open>['git', 'pull']\<close>, extended by \<^verbatim>\<open>['origin', branch]\<close> when the branch is given and
  not empty.\<close>

definition cmd_pull :: "string option \<Rightarrow> string list" where
  "cmd_pull br =
     (case br of
        None \<Rightarrow> [''git'', ''pull'']
      | Some b \<Rightarrow> if b = [] then [''git'', ''pull''] else [''git'', ''pull'', ''origin'', b])"

text \<open>
  \<open>_get_sync_status\<close>: fetch, then count the commits ahead and behind. Every exception,
  of a subprocess or of \<open>int\<close>, gives \<open>(0, 0)\<close>.
\<close>

definition get_sync_status :: "'w host \<Rightarrow> string \<Rightarrow> 'w state \<Rightarrow> (int \<times> int) \<times> 'w state" where
  "get_sync_status h path s =
     (case run h cmd_fetch (Some path) s of
        (Inl e, s1) \<Rightarrow> ((0, 0), s1)
      | (Inr fetched, s1) \<Rightarrow>
          (case run h cmd_rev_list (Some path) s1 of
             (Inl e, s2) \<Rightarrow> ((0, 0), s2)
           | (Inr result, s2) \<Rightarrow>
               if returncode result = 0 then
                 (let counts = split_on (CHR 0x09) (strip (stdout result))
                  in if length counts = 2 then
                       (case int_of_str h (counts ! 0) of
                          None \<Rightarrow> ((0, 0), s2)
                        | Some a \<Rightarrow>
                            (case int_of_str h (counts ! 1) of
                               None \<Rightarrow> ((0, 0), s2)
                             | Some b \<Rightarrow> ((a, b), s2)))
                     else ((0, 0), s2))
               else ((0, 0), s2)))"

text \<open>
  The loop of \<open>get_repo_status\<close> over the lines of \<^verbatim>\<open>git status --porcelain\<close>; its
  variables are the three lists and the conflict flag.
\<close>

fun parse_status_loop ::
  "string list \<Rightarrow> string list \<Rightarrow> string list \<Rightarrow> string list \<Rightarrow> bool
   \<Rightarrow> string list \<times> string list \<times> string list \<times> bool"
where
  "parse_status_loop [] untracked modified staged conflicted =
     (untracked, modified, staged, conflicted)"
| "parse_status_loop (line # rest) untracked modified staged conflicted =
     (if startswith line ''??'' then
        parse_status_loop rest (untracked @ [drop 3 line]) modified staged conflicted
      else if startswith line '' M'' then
        parse_status_loop rest untracked (modified @ [drop 3 line]) staged conflicted
      else if startswith line ''M '' then
        parse_status_loop rest untracked modified (staged @ [drop 3 line]) conflicted
      else if startswith line ''UU'' \<or> startswith line ''AA'' then
        parse_status_loop rest untracked (modified @ [drop 3 line]) staged True
      else parse_status_loop rest untracked modified staged conflicted)"

text \<open>The body of the \<open>try\<close> of \<open>get_repo_status\<close>.\<close>

definition get_repo_status_body ::
  "'w host \<Rightarrow> string \<Rightarrow> 'w state \<Rightarrow> (py_exception + GitStatus) \<times> 'w state"
where
  "get_repo_status_body h path s =
     (case run h cmd_rev_parse (Some path) s of
        (Inl e, s1) \<Rightarrow> (Inl e, s1)
      | (Inr result, s1) \<Rightarrow>
          if returncode result \<noteq> 0 then (Inl (ValueError (msg_not_repo @ path)), s1)
          else
            (case run h cmd_status (Some path) s1 of
               (Inl e, s2) \<Rightarrow> (Inl e, s2)
             | (Inr status_result, s2) \<Rightarrow>
                 (case parse_status_loop (splitlines (stdout status_result)) [] [] [] False of
                    (untracked, modified, staged, conflicted) \<Rightarrow>
                      (case get_sync_status h path s2 of
                         ((ahead, behind), s3) \<Rightarrow>
                           (Inr \<lparr>is_clean = (length untracked = 0 \<and> length modified = 0),
                                 has_conflicts = conflicted,
                                 ahead_commits = ahead,
                                 behind_commits = behind,
                                 untracked_files = untracked,
                                 modified_files = modified,
                                 staged_files = staged\<rparr>, s3)))))"

text \<open>
  \<open>get_repo_status\<close>: a missing path raises \<open>ValueError\<close> before the \<open>try\<close>; inside it a
  \<open>TimeoutExpired\<close> is raised again as \<open>TimeoutError\<close> and every other exception as it is.
\<close>

definition get_repo_status ::
  "'w host \<Rightarrow> string \<Rightarrow> 'w state \<Rightarrow> (py_exception + GitStatus) \<times> 'w state"
where
  "get_repo_status h path s =
     (if \<not> path_exists h path (fst s) then (Inl (ValueError (msg_path_missing @ path)), s)
      else
        (case get_repo_status_body h path s of
           (Inl e, s') \<Rightarrow>
             if is_TimeoutExpired e then (Inl (TimeoutError (msg_git_timeout @ path)), s')
             else (Inl e, s')
         | (Inr st, s') \<Rightarrow> (Inr st, s')))"

text \<open>
  The loop of \<open>_resolve_conflicts\<close> over the conflicted files: an empty name is skipped,
  a resolved file is staged with \<^verbatim>\<open>git add\<close> (whose exception leaves the loop), an
  unresolved one is collected.
\<close>

fun resolve_loop ::
  "'w host \<Rightarrow> string \<Rightarrow> string \<Rightarrow> string list \<Rightarrow> string list \<Rightarrow> 'w state
   \<Rightarrow> (py_exception + string list) \<times> 'w state"
where
  "resolve_loop h strategy path [] unresolved s = (Inr unresolved, s)"
| "resolve_loop h strategy path (file_path # rest) unresolved s =
     (if file_path = [] then resolve_loop h strategy path rest unresolved s
      else
        (case try_resolve_conflict h (path_join path file_path) strategy s of
           (resolved, s1) \<Rightarrow>
             if resolved then
               (case run h (cmd_add file_path) (Some path) s1 of
                  (Inl e, s2) \<Rightarrow> (Inl e, s2)
                | (Inr added, s2) \<Rightarrow> resolve_loop h strategy path rest unresolved s2)
             else resolve_loop h strategy path rest (unresolved @ [file_path]) s1))"

text \<open>
  \<open>_resolve_conflicts\<close>: list the unmerged files and run the loop. An exception before
  the list exists gives the empty list; an exception in the loop gives the whole list.
\<close>

definition resolve_conflicts ::
  "'w host \<Rightarrow> string \<Rightarrow> string \<Rightarrow> 'w state \<Rightarrow> string list \<times> 'w state"
where
  "resolve_conflicts h strategy path s =
     (case run h cmd_diff_unmerged (Some path) s of
        (Inl e, s1) \<Rightarrow> ([], s1)
      | (Inr result, s1) \<Rightarrow>
          (let conflict_files =
                 (if strip (stdout result) \<noteq> [] then split_nl (strip (stdout result)) else [])
           in case resolve_loop h strategy path conflict_files [] s1 of
                (Inl e, s2) \<Rightarrow> (conflict_files, s2)
              | (Inr unresolved, s2) \<Rightarrow> (unresolved, s2)))"

text \<open>
  \<^verbatim>\<open>re.search(r'CONFLICT.*?in (.+)', line)\<close> on a line without a newline: after the first
  \<open>CONFLICT\<close>, the first \<^verbatim>\<open>in \<close> that is followed by at least one character; the group is
  the rest of the line. (A later \<^verbatim>\<open>in \<close> has less text after it than the first one, and a
  later \<open>CONFLICT\<close> has less text after it than the first, so the first ones decide.)
\<close>

definition conflict_match :: "string \<Rightarrow> string option" where
  "conflict_match line =
     (case find_after ''CONFLICT'' line of
        None \<Rightarrow> None
      | Some rest \<Rightarrow>
          (case find_after ''in '' rest of
             None \<Rightarrow> None
           | Some g \<Rightarrow> if g = [] then None else Some g))"

fun parse_conflicts_loop :: "string list \<Rightarrow> string list \<Rightarrow> string list" where
  "parse_conflicts_loop [] found = found"
| "parse_conflicts_loop (line # rest) found =
     (if contains ''CONFLICT'' line then
        (case conflict_match line of
           Some g \<Rightarrow> parse_conflicts_loop rest (found @ [g])
         | None \<Rightarrow> parse_conflicts_loop rest found)
      else parse_conflicts_loop rest found)"

definition parse_conflicts :: "string \<Rightarrow> string list" where
  "parse_conflicts error_message = parse_conflicts_loop (split_nl error_message) []"

text \<open>
  The stash step of \<open>pull_repository\<close>: a tree that is not clean is stashed, and
  \<open>stashed\<close> tells whether the stash command exited with 0.
\<close>

definition stash_if_dirty ::
  "'w host \<Rightarrow> string \<Rightarrow> GitStatus \<Rightarrow> 'w state \<Rightarrow> (py_exception + bool) \<times> 'w state"
where
  "stash_if_dirty h path status s =
     (if \<not> is_clean status then
        (case run h cmd_stash_push (Some path) s of
           (Inl e, s1) \<Rightarrow> (Inl e, s1)
         | (Inr stash_result, s1) \<Rightarrow> (Inr (returncode stash_result = 0), s1))
      else (Inr False, s))"

text \<open>
  The end of \<open>pull_repository\<close>, once the pull has returned: on exit code 0 the stash,
  if any, is restored and the result is a success; otherwise the error text decides
  between a conflict result and a plain failure.
\<close>

definition finish_pull ::
  "'w host \<Rightarrow> string \<Rightarrow> bool \<Rightarrow> completed_process \<Rightarrow> 'w state
   \<Rightarrow> (py_exception + PullResult) \<times> 'w state"
where
  "finish_pull h path stashed pull_result s =
     (if returncode pull_result = 0 then
        (if stashed then
           (case run h cmd_stash_pop (Some path) s of
              (Inl e, s1) \<Rightarrow> (Inl e, s1)
            | (Inr popped, s1) \<Rightarrow> (Inr (mk_PullResult True (strip (stdout pull_result)) []), s1))
         else (Inr (mk_PullResult True (strip (stdout pull_result)) []), s))
      else if contains ''conflict'' (lower (stderr pull_result)) then
        (Inr (mk_PullResult False (msg_pull_conflict @ stderr pull_result)
                (parse_conflicts (stderr pull_result))), s)
      else (Inr (mk_PullResult False (msg_pull_failed @ stderr pull_result) []), s))"

text \<open>The body of the \<open>try\<close> of \<open>pull_repository\<close>.\<close>

definition pull_repository_body ::
  "'w host \<Rightarrow> string \<Rightarrow> string \<Rightarrow> string option \<Rightarrow> 'w state
   \<Rightarrow> (py_exception + PullResult) \<times> 'w state"
where
  "pull_repository_body h strategy path br s =
     (case get_repo_status h path s of
        (Inl e, s1) \<Rightarrow> (Inl e, s1)
      | (Inr status, s1) \<Rightarrow>
          (case (if has_conflicts status then resolve_conflicts h strategy path s1
                 else ([], s1)) of
             (unresolved, s2) \<Rightarrow>
               if has_conflicts status \<and> unresolved \<noteq> [] then
                 (Inr (mk_PullResult False (msg_unresolved @ join '', '' unresolved) unresolved),
                  s2)
               else
                 (case stash_if_dirty h path status s2 of
                    (Inl e, s3) \<Rightarrow> (Inl e, s3)
                  | (Inr stashed, s3) \<Rightarrow>
                      (case run h (cmd_pull br) (Some path) s3 of
                         (Inl e, s4) \<Rightarrow> (Inl e, s4)
                       | (Inr pull_result, s4) \<Rightarrow> finish_pull h path stashed pull_result s4))))"

text \<open>
  \<open>pull_repository\<close>: a missing path is answered at once; otherwise the body runs, a
  \<open>TimeoutExpired\<close> and then any \<open>Exception\<close> is turned into a failure result. \<open>Inl\<close> is
  an exception that leaves the function.
\<close>

definition pull_repository ::
  "'w host \<Rightarrow> string \<Rightarrow> string \<Rightarrow> string option \<Rightarrow> 'w state
   \<Rightarrow> (py_exception + PullResult) \<times> 'w state"
where
  "pull_repository h strategy path br s =
     (if \<not> path_exists h path (fst s) then
        (Inr (mk_PullResult False (msg_path_missing @ path) []), s)
      else
        (case pull_repository_body h strategy path br s of
           (Inl e, s') \<Rightarrow>
             if is_TimeoutExpired e then (Inr (mk_PullResult False (msg_pull_timeout @ path) []), s')
             else if is_Exception e then
               (Inr (mk_PullResult False (msg_pull_exception @ exc_str e) []), s')
             else (Inl e, s')
         | (Inr r, s') \<Rightarrow> (Inr r, s')))"

section \<open>The mapping store\<close>

text \<open>
  A finite Python \<open>float\<close>, as a mantissa and a binary exponent; no operation of the
  model looks inside one.
\<close>

datatype pyfloat = PyFloat int int

text \<open>
  The dataclass \<open>FolderRepoMapping\<close>, which is also a row of the table
  \<open>folder_repo_mappings\<close>. The field \<open>row_id\<close> is the source's \<open>id\<close>.
\<close>

record FolderRepoMapping =
  row_id :: "int option"
  folder_path :: string
  folder_name :: string
  repo_path :: string
  repo_name :: string
  remote_url :: "string option"
  branch :: string
  similarity_score :: pyfloat
  created_at :: "string option"
  updated_at :: "string option"
  last_pull_at :: "string option"
  pull_status :: string
  auto_pull_enabled :: bool
  github_url :: "string option"
  github_exists :: bool

text \<open>A row of the table \<open>pull_logs\<close> (its generated key left out).\<close>

record pull_log =
  log_mapping_id :: "int option"
  action :: string
  status :: string
  log_message :: "string option"
  timestamp :: string

record database =
  folder_repo_mappings :: "FolderRepoMapping list"
  pull_logs :: "pull_log list"

text \<open>
  \<open>get_auto_pull_mappings\<close>: the rows with \<open>auto_pull_enabled = 1\<close>, ordered by
  \<open>last_pull_at\<close> ascending (SQLite puts NULL first and compares text bytewise). An
  exception of the store leaves the function.
\<close>

definition get_auto_pull_mappings ::
  "'w host \<Rightarrow> 'w state \<times> database
   \<Rightarrow> (py_exception + FolderRepoMapping list) \<times> 'w state \<times> database"
where
  "get_auto_pull_mappings h sd =
     (case sd of
        (s, db) \<Rightarrow>
          (case sqlite_transaction h (fst s) of
             (Some e, w') \<Rightarrow> (Inl e, ((w', snd s), db))
           | (None, w') \<Rightarrow>
               (Inr (sort_key last_pull_at (filter auto_pull_enabled (folder_repo_mappings db))),
                ((w', snd s), db))))"

text \<open>
  The two statements of \<open>update_pull_status\<close>, once its transaction commits at time
  \<open>now\<close>: the row with the given key gets the status and the time (a NULL key matches
  no row), and one row is added to the log.
\<close>

definition set_pull_status ::
  "int option \<Rightarrow> string \<Rightarrow> string \<Rightarrow> FolderRepoMapping \<Rightarrow> FolderRepoMapping" where
  "set_pull_status mapping_id st now m =
     (if mapping_id \<noteq> None \<and> row_id m = mapping_id
      then m\<lparr>pull_status := st, last_pull_at := Some now, updated_at := Some now\<rparr>
      else m)"

definition committed_update ::
  "int option \<Rightarrow> string \<Rightarrow> string option \<Rightarrow> string \<Rightarrow> database \<Rightarrow> database" where
  "committed_update mapping_id st msg now db =
     \<lparr>folder_repo_mappings = map (set_pull_status mapping_id st now) (folder_repo_mappings db),
      pull_logs = pull_logs db @
        [\<lparr>log_mapping_id = mapping_id, action = ''pull'', status = st, log_message = msg,
          timestamp = now\<rparr>]\<rparr>"

text \<open>
  \<open>update_pull_status\<close>: one transaction around both statements. When it raises, the
  transaction is rolled back, the store is as before, and the exception leaves the
  function.
\<close>

definition update_pull_status ::
  "'w host \<Rightarrow> int option \<Rightarrow> string \<Rightarrow> string option \<Rightarrow> 'w state \<times> database
   \<Rightarrow> (py_exception + unit) \<times> 'w state \<times> database"
where
  "update_pull_status h mapping_id st msg sd =
     (case sd of
        (s, db) \<Rightarrow>
          (case sqlite_transaction h (fst s) of
             (Some e, w') \<Rightarrow> (Inl e, ((w', snd s), db))
           | (None, w') \<Rightarrow>
               (Inr (), ((w', snd s),
                  committed_update mapping_id st msg (current_timestamp h w') db))))"

section \<open>The scheduler\<close>

record SchedulerConfig =
  pull_interval_minutes :: int
  max_concurrent_pulls :: int
  retry_failed_after_minutes :: int
  cleanup_logs_days :: int
  repo_manager_dependency :: bool
  repo_manager_config_dir :: string

text \<open>
  \<open>timedelta(minutes=n)\<close> in microseconds; Python raises \<open>OverflowError\<close> when the
  number of days leaves the range of a timedelta.
\<close>

definition timedelta_minutes :: "int \<Rightarrow> py_exception + int" where
  "timedelta_minutes n =
     (if - 999999999 \<le> n div 1440 \<and> n div 1440 \<le> 999999999 then Inr (n * 60000000)
      else Inl (OtherException ''OverflowError''))"

text \<open>
  The difference of two datetimes, in microseconds; Python raises \<open>TypeError\<close> when one
  is naive and the other aware.
\<close>

fun datetime_sub :: "datetime \<Rightarrow> datetime \<Rightarrow> py_exception + int" where
  "datetime_sub (Naive a) (Naive b) = Inr (a - b)"
| "datetime_sub (Aware a) (Aware b) = Inr (a - b)"
| "datetime_sub (Naive a) (Aware b) = Inl (OtherException ''TypeError'')"
| "datetime_sub (Aware a) (Naive b) = Inl (OtherException ''TypeError'')"

text \<open>
  The loop of \<open>_get_pending_mappings\<close>; \<open>pending\<close> is \<open>pending_mappings\<close>. An exception
  of \<open>fromisoformat\<close> or of the subtraction leaves the loop.
\<close>

fun pending_loop ::
  "'w host \<Rightarrow> int \<Rightarrow> int \<Rightarrow> int \<Rightarrow> FolderRepoMapping list \<Rightarrow> FolderRepoMapping list
   \<Rightarrow> py_exception + FolderRepoMapping list"
where
  "pending_loop h now pull_interval retry_interval [] pending = Inr pending"
| "pending_loop h now pull_interval retry_interval (mapping # rest) pending =
     (if \<not> auto_pull_enabled mapping then
        pending_loop h now pull_interval retry_interval rest pending
      else
        (case last_pull_at mapping of
           None \<Rightarrow> pending_loop h now pull_interval retry_interval rest (pending @ [mapping])
         | Some text \<Rightarrow>
             (case fromisoformat h text of
                Inl e \<Rightarrow> Inl e
              | Inr last_pull \<Rightarrow>
                  (case datetime_sub (Naive now) last_pull of
                     Inl e \<Rightarrow> Inl e
                   | Inr elapsed \<Rightarrow>
                       (let should_pull =
                              (if pull_status mapping = ''success'' then elapsed \<ge> pull_interval
                               else if List.member [''failed'', ''conflict''] (pull_status mapping)
                               then elapsed \<ge> retry_interval
                               else elapsed \<ge> pull_interval)
                        in if should_pull then
                             pending_loop h now pull_interval retry_interval rest
                               (pending @ [mapping])
                           else pending_loop h now pull_interval retry_interval rest pending)))))"

text \<open>
  \<open>_get_pending_mappings\<close>: read the store, take the time, build the two intervals, run
  the loop; any exception gives the empty list.
\<close>

definition get_pending_mappings ::
  "'w host \<Rightarrow> SchedulerConfig \<Rightarrow> 'w state \<times> database
   \<Rightarrow> FolderRepoMapping list \<times> 'w state \<times> database"
where
  "get_pending_mappings h config sd =
     (case get_auto_pull_mappings h sd of
        (Inl e, sd1) \<Rightarrow> ([], sd1)
      | (Inr all_mappings, sd1) \<Rightarrow>
          (let now = datetime_now h (fst (fst sd1))
           in case timedelta_minutes (pull_interval_minutes config) of
                Inl e \<Rightarrow> ([], sd1)
              | Inr pull_interval \<Rightarrow>
                  (case timedelta_minutes (retry_failed_after_minutes config) of
                     Inl e \<Rightarrow> ([], sd1)
                   | Inr retry_interval \<Rightarrow>
                       (case pending_loop h now pull_interval retry_interval all_mappings [] of
                          Inl e \<Rightarrow> ([], sd1)
                        | Inr pending \<Rightarrow> (pending, sd1)))))"

text \<open>
  The body of the \<open>try\<close> of \<open>_pull_repository_thread\<close> (the semaphore around it left
  out): a missing path is recorded as \<open>failed\<close>; otherwise the repository is pulled and
  the result decides the recorded status.
\<close>

definition pull_repository_thread_body ::
  "'w host \<Rightarrow> string \<Rightarrow> FolderRepoMapping \<Rightarrow> 'w state \<times> database
   \<Rightarrow> (py_exception + unit) \<times> 'w state \<times> database"
where
  "pull_repository_thread_body h strategy mapping sd =
     (case sd of
        (s, db) \<Rightarrow>
          if \<not> path_exists h (repo_path mapping) (fst s) then
            update_pull_status h (row_id mapping) ''failed''
              (Some (msg_path_missing @ repo_path mapping)) (s, db)
          else
            (case pull_repository h strategy (repo_path mapping) (Some (branch mapping)) s of
               (Inl e, s1) \<Rightarrow> (Inl e, (s1, db))
             | (Inr result, s1) \<Rightarrow>
                 if success result then
                   update_pull_status h (row_id mapping) ''success'' (Some (message result))
                     (s1, db)
                 else
                   update_pull_status h (row_id mapping)
                     (if conflicts result \<noteq> [] then ''conflict'' else ''failed'')
                     (Some (message result)) (s1, db)))"

text \<open>
  \<open>_pull_repository_thread\<close>: an exception of the body is recorded as \<open>failed\<close>; an
  exception of that last update leaves the function.
\<close>

definition pull_repository_thread ::
  "'w host \<Rightarrow> string \<Rightarrow> FolderRepoMapping \<Rightarrow> 'w state \<times> database
   \<Rightarrow> (py_exception + unit) \<times> 'w state \<times> database"
where
  "pull_repository_thread h strategy mapping sd =
     (case pull_repository_thread_body h strategy mapping sd of
        (Inl e, sd1) \<Rightarrow>
          if is_Exception e then
            update_pull_status h (row_id mapping) ''failed''
              (Some (msg_thread_exception @ exc_str e)) sd1
          else (Inl e, sd1)
      | (Inr u, sd1) \<Rightarrow> (Inr u, sd1))"

section \<open>The external gate check\<close>

definition cmd_ps :: "string list" where
  "cmd_ps = [''ps'', ''aux'']"

text \<open>The loop of \<open>_is_repo_manager_idle\<close> over the lines of the process list: \<open>False\<close>
  at the first line of a running monitor, \<open>True\<close> when no line is one.\<close>

fun scan_process_lines :: "string list \<Rightarrow> bool" where
  "scan_process_lines [] = True"
| "scan_process_lines (line # rest) =
     (if contains ''repo-manager'' line \<and> contains ''monitor'' line \<and> \<not> contains ''grep'' line
      then False
      else scan_process_lines rest)"

definition is_repo_manager_idle ::
  "'w host \<Rightarrow> SchedulerConfig \<Rightarrow> 'w state \<Rightarrow> bool \<times> 'w state"
where
  "is_repo_manager_idle h config s =
     (if \<not> repo_manager_dependency config then (True, s)
      else
        (case run h cmd_ps None s of
           (Inl e, s1) \<Rightarrow> (True, s1)
         | (Inr result, s1) \<Rightarrow>
             if returncode result \<noteq> 0 then (True, s1)
             else (scan_process_lines (split_nl (stdout result)), s1)))"

section \<open>The specification's words for the scheduler\<close>

text \<open>
  When a mapping is due, following the specification: never synced, or the time since
  the last sync has reached the retry interval (after \<open>failed\<close> or \<open>conflict\<close>) or
  the normal interval (after any other status). The last sync is the stored text read
  as a naive datetime.
\<close>

definition is_due :: "'w host \<Rightarrow> SchedulerConfig \<Rightarrow> int \<Rightarrow> FolderRepoMapping \<Rightarrow> bool" where
  "is_due h config now m =
     (case last_pull_at m of
        None \<Rightarrow> True
      | Some text \<Rightarrow>
          (case fromisoformat h text of
             Inr (Naive last_sync) \<Rightarrow>
               if pull_status m = ''failed'' \<or> pull_status m = ''conflict''
               then now - last_sync \<ge> retry_failed_after_minutes config * 60000000
               else now - last_sync \<ge> pull_interval_minutes config * 60000000
           | Inr (Aware last_sync) \<Rightarrow> False
           | Inl e \<Rightarrow> False))"

text \<open>
  The status to persist for a result, following the specification: \<open>success\<close> on
  success; on failure \<open>conflict\<close> if conflicts were reported, else \<open>failed\<close>.
\<close>

definition persisted_status :: "PullResult \<Rightarrow> string" where
  "persisted_status r =
     (if success r then ''success'' else if conflicts r \<noteq> [] then ''conflict'' else ''failed'')"

section \<open>A scripted host\<close>

text \<open>
  A host for concrete runs. Its world is the list of the paths that exist, each with its
  text; a subprocess answers from a fixed script and leaves the world alone; a write
  succeeds; the store never raises; the clock stands at \<open>clock\<close>;
  \<open>fromisoformat\<close> knows the timestamps of a calendar table; and \<open>int\<close> reads ASCII
  digits.
\<close>

definition scripted_host ::
  "(string list \<Rightarrow> py_exception + completed_process) \<Rightarrow> int \<Rightarrow> (string \<times> int) list
   \<Rightarrow> (string \<times> string) list host"
where
  "scripted_host script clock calendar =
     \<lparr>path_exists = (\<lambda>p w. map_of w p \<noteq> None),
      subprocess_run = (\<lambda>argv cwd w. (script argv, w)),
      read_text = (\<lambda>p w. case map_of w p of
                             None \<Rightarrow> Inl (OtherException ''FileNotFoundError'')
                           | Some c \<Rightarrow> Inr c),
      write_text = (\<lambda>p c w. (None, (p, c) # w)),
      datetime_now = (\<lambda>w. clock),
      current_timestamp = (\<lambda>w. ''2024-01-01 00:00:00''),
      sqlite_transaction = (\<lambda>w. (None, w)),
      fromisoformat = (\<lambda>t. case map_of calendar t of
                              None \<Rightarrow> Inl (ValueError ''Invalid isoformat string'')
                            | Some us \<Rightarrow> Inr (Naive us)),
      int_of_str = py_int\<rparr>"

definition silent_host :: "(string \<times> string) list host" where
  "silent_host = scripted_host (\<lambda>argv. Inl (OtherException ''FileNotFoundError'')) 0 []"

text \<open>A host where every subprocess runs into its timeout.\<close>

definition timeout_host :: "(string \<times> string) list host" where
  "timeout_host = scripted_host (\<lambda>argv. Inl (TimeoutExpired ''timed out'')) 0 []"

text \<open>A host whose process list shows the monitor of the cooperating tool.\<close>

definition monitor_host :: "(string \<times> string) list host" where
  "monitor_host =
     scripted_host
       (\<lambda>argv. Inr \<lparr>returncode = 0, stdout = ''root 7 repo-manager monitor\<newline>'', stderr = []\<rparr>)
       0 []"

text \<open>The defaults of \<open>SchedulerConfig\<close>.\<close>

definition default_config :: SchedulerConfig where
  "default_config =
     \<lparr>pull_interval_minutes = 15, max_concurrent_pulls = 3, retry_failed_after_minutes = 120,
      cleanup_logs_days = 30, repo_manager_dependency = True,
      repo_manager_config_dir =
        ''/Users/niceday/Developer/Code/Local/Script/desktop/repo-management/.repo-manager''\<rparr>"

text \<open>A world with one repository directory, and a host where git finds it clean and up
  to date.\<close>

definition repo_world :: "(string \<times> string) list" where
  "repo_world = [(''/repo'', [])]"

definition clean_repo_host :: "(string \<times> string) list host" where
  "clean_repo_host =
     scripted_host
       (\<lambda>argv. Inr \<lparr>returncode = 0,
                     stdout = (if argv = cmd_pull (Some ''main'') then ''Already up to date.\<newline>''
                               else []),
                     stderr = []\<rparr>)
       0 []"

text \<open>A host where the pull fails and only speaks of conflicts in lower case.\<close>

definition merge_failed_text :: string where
  "merge_failed_text = ''Automatic merge failed; fix conflicts and then commit the result.\<newline>''"

definition conflict_word_host :: "(string \<times> string) list host" where
  "conflict_word_host =
     scripted_host
       (\<lambda>argv. if argv = cmd_pull (Some ''main'')
               then Inr \<lparr>returncode = 1, stdout = [], stderr = merge_failed_text\<rparr>
               else Inr \<lparr>returncode = 0, stdout = [], stderr = []\<rparr>)
       0 []"

text \<open>
  Two hosts where git finds the repository clean and the pull succeeds, but one query
  on the way fails: on the first the fetch runs into its timeout, on the second the
  count of commits exits with 128, as it does on a branch without an upstream.
\<close>

definition fetch_timeout_host :: "(string \<times> string) list host" where
  "fetch_timeout_host =
     scripted_host
       (\<lambda>argv. if argv = cmd_fetch then Inl (TimeoutExpired ''timed out'')
               else Inr \<lparr>returncode = 0,
                         stdout = (if argv = cmd_pull (Some ''main'')
                                   then ''Already up to date.\<newline>'' else []),
                         stderr = []\<rparr>)
       0 []"

definition no_upstream_host :: "(string \<times> string) list host" where
  "no_upstream_host =
     scripted_host
       (\<lambda>argv. if argv = cmd_rev_list
               then Inr \<lparr>returncode = 128, stdout = [],
                         stderr = ''fatal: no upstream configured for branch''\<rparr>
               else Inr \<lparr>returncode = 0,
                         stdout = (if argv = cmd_pull (Some ''main'')
                                   then ''Already up to date.\<newline>'' else []),
                         stderr = []\<rparr>)
       0 []"

text \<open>
  Hosts where one step of a pull fails: the path is no repository; the status query
  runs into its timeout; the pull runs into its timeout; the pull is refused; and, on a
  tree with a modified file, restoring the stash runs into its timeout after the pull
  has succeeded.
\<close>

definition not_a_repo_host :: "(string \<times> string) list host" where
  "not_a_repo_host =
     scripted_host
       (\<lambda>argv. Inr \<lparr>returncode = 128, stdout = [], stderr = ''fatal: not a git repository''\<rparr>)
       0 []"

definition status_timeout_host :: "(string \<times> string) list host" where
  "status_timeout_host =
     scripted_host
       (\<lambda>argv. if argv = cmd_status then Inl (TimeoutExpired ''timed out'')
               else Inr \<lparr>returncode = 0, stdout = [], stderr = []\<rparr>)
       0 []"

definition pull_timeout_host :: "(string \<times> string) list host" where
  "pull_timeout_host =
     scripted_host
       (\<lambda>argv. if argv = cmd_pull (Some ''main'') then Inl (TimeoutExpired ''timed out'')
               else Inr \<lparr>returncode = 0, stdout = [], stderr = []\<rparr>)
       0 []"

definition refused_text :: string where
  "refused_text = ''fatal: refusing to merge unrelated histories''"

definition pull_refused_host :: "(string \<times> string) list host" where
  "pull_refused_host =
     scripted_host
       (\<lambda>argv. if argv = cmd_pull (Some ''main'')
               then Inr \<lparr>returncode = 128, stdout = [], stderr = refused_text\<rparr>
               else Inr \<lparr>returncode = 0, stdout = [], stderr = []\<rparr>)
       0 []"

definition pop_timeout_host :: "(string \<times> string) list host" where
  "pop_timeout_host =
     scripted_host
       (\<lambda>argv. if argv = cmd_stash_pop then Inl (TimeoutExpired ''timed out'')
               else Inr \<lparr>returncode = 0,
                         stdout = (if argv = cmd_status then '' M a.txt\<newline>'' else []),
                         stderr = []\<rparr>)
       0 []"

text \<open>
  A world where the store is locked by another writer, and a host like the clean one
  where a transaction on a locked store raises; the lock is gone afterwards.
\<close>

definition locked_world :: "(string \<times> string) list" where
  "locked_world = [(''/repo'', []), (''/mappings.db-journal'', [])]"

definition flaky_store_host :: "(string \<times> string) list host" where
  "flaky_store_host =
     clean_repo_host
       \<lparr>sqlite_transaction :=
          (\<lambda>w. if map_of w ''/mappings.db-journal'' \<noteq> None
                then (Some (OtherException ''database is locked''),
                      filter (\<lambda>entry. fst entry \<noteq> ''/mappings.db-journal'') w)
                else (None, w))\<rparr>"

text \<open>A mapping that was never synced, and a store that holds it.\<close>

definition demo_mapping :: FolderRepoMapping where
  "demo_mapping =
     \<lparr>row_id = Some 1, folder_path = ''/work/app'', folder_name = ''app'', repo_path = ''/repo'',
      repo_name = ''app'', remote_url = None, branch = ''main'', similarity_score = PyFloat 1 0,
      created_at = None, updated_at = None, last_pull_at = None, pull_status = ''pending'',
      auto_pull_enabled = True, github_url = None, github_exists = False\<rparr>"

definition demo_db :: database where
  "demo_db = \<lparr>folder_repo_mappings = [demo_mapping], pull_logs = []\<rparr>"

text \<open>
  A host whose clock stands fifteen minutes after the first of two known timestamps,
  and a store with five mappings: never synced; synced with success exactly fifteen
  minutes ago; synced with success one second later; failed fifteen minutes ago; and
  never synced but switched off.
\<close>

definition calendar_host :: "(string \<times> string) list host" where
  "calendar_host =
     scripted_host (\<lambda>argv. Inl (OtherException ''FileNotFoundError'')) 900000000
       [(''2024-01-01 00:00:00'', 0), (''2024-01-01 00:00:01'', 1000000)]"

definition due_at_boundary :: FolderRepoMapping where
  "due_at_boundary =
     demo_mapping\<lparr>row_id := Some 2, last_pull_at := Some ''2024-01-01 00:00:00'',
       pull_status := ''success''\<rparr>"

definition not_yet_due :: FolderRepoMapping where
  "not_yet_due =
     demo_mapping\<lparr>row_id := Some 3, last_pull_at := Some ''2024-01-01 00:00:01'',
       pull_status := ''success''\<rparr>"

definition failed_recently :: FolderRepoMapping where
  "failed_recently =
     demo_mapping\<lparr>row_id := Some 4, last_pull_at := Some ''2024-01-01 00:00:00'',
       pull_status := ''failed''\<rparr>"

definition switched_off :: FolderRepoMapping where
  "switched_off = demo_mapping\<lparr>row_id := Some 5, auto_pull_enabled := False\<rparr>"

definition five_mappings_db :: database where
  "five_mappings_db =
     \<lparr>folder_repo_mappings =
        [demo_mapping, due_at_boundary, not_yet_due, failed_recently, switched_off],
      pull_logs = []\<rparr>"

text \<open>The default configuration with a pull interval of a thousand million days.\<close>

definition overflow_config :: SchedulerConfig where
  "overflow_config = default_config\<lparr>pull_interval_minutes := 1440000000000\<rparr>"

text \<open>The five-line conflict block of the specification.\<close>

definition five_line_block :: string where
  "five_line_block = ''<<<<<<< HEAD\<newline>A\<newline>=======\<newline>B\<newline>>>>>>>> x\<newline>''"

text \<open>A document whose heading is underlined with equals signs, before a conflict.\<close>

definition underlined_heading :: string where
  "underlined_heading =
     ''Title\<newline>=======\<newline><<<<<<< HEAD\<newline>A\<newline>=======\<newline>B\<newline>>>>>>>> x\<newline>''"

section \<open>Properties of the conflict resolver\<close>

lemmas marker_defs =
  startswith_def marker_start_def marker_sep_def marker_end_def newline_def split_nl_def

lemma contains_sublist: "contains p t = sublist p t"
  by (induction t) (auto simp: sublist_Cons_right)

lemma five_local: "keep_local_text five_line_block = ''A\<newline>''"
  by (simp add: keep_local_text_def five_line_block_def marker_defs)

lemma five_remote: "keep_remote_text five_line_block = ''B\<newline>''"
  by (simp add: keep_remote_text_def five_line_block_def marker_defs)

lemma five_both_lines:
  "keep_both_loop (split_nl five_line_block) False False [] [] [] =
     [both_header, both_local, ''A'', both_remote, ''B'', both_footer, []]"
  by (simp add: five_line_block_def marker_defs)

lemma five_both_split:
  "split_nl (join [newline]
      [both_header, both_local, ''A'', both_remote, ''B'', both_footer, []]) =
     [both_header, both_local, ''A'', both_remote, ''B'', both_footer, []]"
  by (simp add: newline_def split_nl_def both_header_def both_local_def both_remote_def
        both_footer_def)

text \<open>
  Claim C2. On the five-line conflict block, keeping the local variant writes exactly
  the line \<open>A\<close> and a newline, keeping the remote variant writes exactly the line \<open>B\<close>
  and a newline, and keeping both writes the lines \<open>A\<close> and \<open>B\<close> unaltered, each after
  a generated comment line, with the generated line \<open>both_remote\<close> between them.
\<close>

theorem five_line_block_resolution:
  "keep_local_text five_line_block = ''A\<newline>''
   \<and> keep_remote_text five_line_block = ''B\<newline>''
   \<and> split_nl (keep_both_text five_line_block) =
       [both_header, both_local, ''A'', both_remote, ''B'', both_footer, []]
   \<and> resolve_keep_local h p five_line_block s = write_back h p ''A\<newline>'' s
   \<and> resolve_keep_remote h p five_line_block s = write_back h p ''B\<newline>'' s
   \<and> resolve_keep_both h p five_line_block s =
       write_back h p
         (join [newline] [both_header, both_local, ''A'', both_remote, ''B'', both_footer, []])
         s"
  unfolding resolve_keep_local_def resolve_keep_remote_def resolve_keep_both_def
    five_local five_remote keep_both_text_def five_both_lines five_both_split
  by simp

text \<open>
  Claim C3. When the file can be read and its content does not contain the start
  marker, \<open>_try_resolve_conflict\<close> answers \<open>True\<close> under every strategy, writes nothing
  and runs nothing: the state, and so the content of the file, is the one before.
\<close>

theorem no_marker_unchanged:
  assumes "read_text h file_path (fst s) = Inr content"
    and "\<not> contains marker_start content"
  shows "try_resolve_conflict h file_path strategy s = (True, s)
         \<and> read_text h file_path (fst (snd (try_resolve_conflict h file_path strategy s)))
             = Inr content"
  using assms by (simp add: try_resolve_conflict_def)

theorem no_marker_unchanged_witness:
  "read_text silent_host ''/r/notes.md''
      (fst ([(''/r/notes.md'', ''Title\<newline>=======\<newline>text\<newline>'')], [])) = Inr ''Title\<newline>=======\<newline>text\<newline>''
   \<and> \<not> contains marker_start ''Title\<newline>=======\<newline>text\<newline>''
   \<and> try_resolve_conflict silent_host ''/r/notes.md'' ''smart_merge''
        ([(''/r/notes.md'', ''Title\<newline>=======\<newline>text\<newline>'')], [])
       = (True, ([(''/r/notes.md'', ''Title\<newline>=======\<newline>text\<newline>'')], []))"
proof -
  let ?c = "''Title\<newline>=======\<newline>text\<newline>''"
  let ?s = "([(''/r/notes.md'', ?c)], []) :: (string \<times> string) list state"
  have r: "read_text silent_host ''/r/notes.md'' (fst ?s) = Inr ?c"
    by (simp add: silent_host_def scripted_host_def)
  have n: "\<not> contains marker_start ?c"
    by (simp add: marker_start_def)
  show ?thesis
    using r n no_marker_unchanged [OF r n, of "''smart_merge''"] by simp
qed

subsection \<open>What keeping the local variant keeps\<close>

lemma keep_local_loop_append:
  "keep_local_loop ls c r (acc @ acc') = acc @ keep_local_loop ls c r acc'"
  by (induction ls arbitrary: c r acc') simp_all

lemma keep_local_loop_acc:
  "keep_local_loop ls c r acc = acc @ keep_local_loop ls c r []"
  using keep_local_loop_append [of ls c r acc "[]"] by simp

lemma keep_local_subseq: "subseq (keep_local_loop ls c r []) ls"
proof (induction ls arbitrary: c r)
  case Nil
  show ?case by simp
next
  case (Cons l ls)
  have skip: "subseq (keep_local_loop ls c' r' []) (l # ls)" for c' r'
    using Cons.IH [of c' r'] by (rule list_emb_Cons)
  have keep: "subseq (l # keep_local_loop ls c' r' []) (l # ls)" for c' r'
    using Cons.IH [of c' r'] by simp
  show ?case
    using skip keep keep_local_loop_acc [of ls _ _ "[l]"] by simp
qed

lemma keep_local_plain:
  "\<not> is_marker l \<Longrightarrow>
   keep_local_loop (l # ls) False r [] = l # keep_local_loop ls False r []"
  using keep_local_loop_acc [of ls False r "[l]"] by (simp add: is_marker_def)

lemma keep_local_in_local:
  "list_all (\<lambda>l. \<not> is_marker l) loc \<Longrightarrow>
   keep_local_loop (loc @ ls) True False [] = loc @ keep_local_loop ls True False []"
proof (induction loc)
  case Nil
  show ?case by simp
next
  case (Cons l loc)
  then show ?case
    using keep_local_loop_acc [of "loc @ ls" True False "[l]"] by (simp add: is_marker_def)
qed

lemma keep_local_in_remote:
  "list_all (\<lambda>l. \<not> is_marker l) rem \<Longrightarrow>
   keep_local_loop (rem @ ls) True True [] = keep_local_loop ls True True []"
  by (induction rem) (simp_all add: is_marker_def)

lemma startswith_excl:
  "startswith l marker_sep \<Longrightarrow> \<not> startswith l marker_start"
  "startswith l marker_end \<Longrightarrow> \<not> startswith l marker_start"
  "startswith l marker_end \<Longrightarrow> \<not> startswith l marker_sep"
  by (auto simp: startswith_def marker_start_def marker_sep_def marker_end_def prefix_def)

lemma keep_local_segment:
  assumes ok: "seg_ok g"
  shows "keep_local_loop (render g @ ls) False False [] =
           local_view g @ keep_local_loop ls False False []"
proof (cases g)
  case (Plain l)
  with ok show ?thesis using keep_local_plain [of l ls False] by simp
next
  case (Region b loc m rem e)
  with ok have a: "startswith b marker_start" "startswith m marker_sep"
    "startswith e marker_end" "list_all (\<lambda>l. \<not> is_marker l) loc"
    "list_all (\<lambda>l. \<not> is_marker l) rem"
    by simp_all
  have 1: "keep_local_loop (render g @ ls) False False [] =
             keep_local_loop (loc @ m # rem @ e # ls) True False []"
    using Region a(1) by simp
  have 2: "\<dots> = loc @ keep_local_loop (m # rem @ e # ls) True False []"
    using keep_local_in_local [OF a(4)] by simp
  have 3: "keep_local_loop (m # rem @ e # ls) True False [] =
             keep_local_loop (rem @ e # ls) True True []"
    using a(2) startswith_excl(1) [OF a(2)] by simp
  have 4: "\<dots> = keep_local_loop (e # ls) True True []"
    using keep_local_in_remote [OF a(5)] by simp
  have 5: "\<dots> = keep_local_loop ls False False []"
    using a(3) startswith_excl(2,3) [OF a(3)] by simp
  show ?thesis using 1 2 3 4 5 Region by simp
qed

lemma keep_local_segments:
  "list_all seg_ok segs \<Longrightarrow>
   keep_local_loop (concat (map render segs)) False False [] = concat (map local_view segs)"
proof (induction segs)
  case Nil
  show ?case by simp
next
  case (Cons g segs)
  then show ?case using keep_local_segment [of g "concat (map render segs)"] by simp
qed

lemma keep_local_spec_in_local:
  "list_all (\<lambda>l. \<not> is_marker l) loc \<Longrightarrow>
   keep_local_spec InLocal (loc @ ls) = loc @ keep_local_spec InLocal ls"
  by (induction loc) (simp_all add: is_marker_def)

lemma keep_local_spec_in_remote:
  "list_all (\<lambda>l. \<not> is_marker l) rem \<Longrightarrow>
   keep_local_spec InRemote (rem @ ls) = keep_local_spec InRemote ls"
  by (induction rem) (simp_all add: is_marker_def)

lemma keep_local_spec_segment:
  assumes ok: "seg_ok g"
  shows "keep_local_spec Outside (render g @ ls) = local_view g @ keep_local_spec Outside ls"
proof (cases g)
  case (Plain l)
  with ok show ?thesis by (simp add: is_marker_def)
next
  case (Region b loc m rem e)
  with ok have a: "startswith b marker_start" "startswith m marker_sep"
    "startswith e marker_end" "list_all (\<lambda>l. \<not> is_marker l) loc"
    "list_all (\<lambda>l. \<not> is_marker l) rem"
    by simp_all
  have "keep_local_spec Outside (render g @ ls) = keep_local_spec InLocal (loc @ m # rem @ e # ls)"
    using Region a(1) by simp
  also have "\<dots> = loc @ keep_local_spec InLocal (m # rem @ e # ls)"
    using keep_local_spec_in_local [OF a(4)] by simp
  also have "keep_local_spec InLocal (m # rem @ e # ls) = keep_local_spec InRemote (rem @ e # ls)"
    using a(2) by simp
  also have "\<dots> = keep_local_spec InRemote (e # ls)"
    using keep_local_spec_in_remote [OF a(5)] by simp
  also have "\<dots> = keep_local_spec Outside ls"
    using a(3) by simp
  finally show ?thesis using Region by simp
qed

lemma keep_local_spec_segments:
  "list_all seg_ok segs \<Longrightarrow>
   keep_local_spec Outside (concat (map render segs)) = concat (map local_view segs)"
proof (induction segs)
  case Nil
  show ?case by simp
next
  case (Cons g segs)
  then show ?case using keep_local_spec_segment [of g "concat (map render segs)"] by simp
qed

text \<open>
  Claim C4, as amended. When the lines of the content are plain lines and conflict
  regions whose delimiters begin with the three markers, and no other line begins with
  a marker, keeping the local variant writes exactly the plain lines and the local
  lines of every region, unchanged and in order, which is what the specification's
  reading keeps. For every content whatsoever, the lines written are a subsequence of
  the lines of the content: no line is fabricated.
\<close>

theorem keep_local_frame:
  "(split_nl content = concat (map render segs) \<and> list_all seg_ok segs \<longrightarrow>
      keep_local_text content = join [newline] (concat (map local_view segs))
      \<and> keep_local_text content = keep_local_spec_text content)
   \<and> subseq (keep_local_loop (split_nl content) False False []) (split_nl content)"
  using keep_local_segments [of segs] keep_local_spec_segments [of segs]
    keep_local_subseq [of "split_nl content" False False]
  by (simp add: keep_local_text_def keep_local_spec_text_def)

theorem keep_local_frame_witness:
  "split_nl ''x\<newline><<<<<<< HEAD\<newline>A1\<newline>A2\<newline>=======\<newline>B\<newline>>>>>>>> theirs\<newline>y'' =
     concat (map render
       [Plain ''x'', Region ''<<<<<<< HEAD'' [''A1'', ''A2''] ''======='' [''B''] ''>>>>>>> theirs'',
        Plain ''y''])
   \<and> list_all seg_ok
       [Plain ''x'', Region ''<<<<<<< HEAD'' [''A1'', ''A2''] ''======='' [''B''] ''>>>>>>> theirs'',
        Plain ''y'']
   \<and> keep_local_text ''x\<newline><<<<<<< HEAD\<newline>A1\<newline>A2\<newline>=======\<newline>B\<newline>>>>>>>> theirs\<newline>y'' = ''x\<newline>A1\<newline>A2\<newline>y''"
proof -
  let ?c = "''x\<newline><<<<<<< HEAD\<newline>A1\<newline>A2\<newline>=======\<newline>B\<newline>>>>>>>> theirs\<newline>y''"
  let ?segs = "[Plain ''x'',
    Region ''<<<<<<< HEAD'' [''A1'', ''A2''] ''======='' [''B''] ''>>>>>>> theirs'', Plain ''y'']"
  have r: "split_nl ?c = concat (map render ?segs)"
    by (simp add: marker_defs)
  have k: "list_all seg_ok ?segs"
    by (simp add: is_marker_def marker_defs)
  have j: "join [newline] (concat (map local_view ?segs)) = ''x\<newline>A1\<newline>A2\<newline>y''"
    by (simp add: newline_def)
  have h: "keep_local_text ?c = join [newline] (concat (map local_view ?segs))"
    using keep_local_frame [of ?c ?segs] r k by blast
  show ?thesis
  proof (intro conjI)
    show "split_nl ?c = concat (map render ?segs)" by (rule r)
    show "list_all seg_ok ?segs" by (rule k)
    show "keep_local_text ?c = ''x\<newline>A1\<newline>A2\<newline>y''" by (simp only: h j)
  qed
qed

text \<open>
  The claim as stated fails on a document with an underlined heading: the line of equals
  signs stands outside every conflict region, and keeping the local variant drops it.
\<close>

theorem keep_local_drops_heading_counterexample:
  "contains marker_start underlined_heading
   \<and> keep_local_spec_text underlined_heading = ''Title\<newline>=======\<newline>A\<newline>''
   \<and> keep_local_text underlined_heading = ''Title\<newline>A\<newline>''
   \<and> keep_local_text underlined_heading \<noteq> keep_local_spec_text underlined_heading"
  by (simp add: underlined_heading_def keep_local_text_def keep_local_spec_text_def marker_defs)

section \<open>Properties of the sync executor\<close>

lemmas cmd_defs =
  cmd_rev_parse_def cmd_status_def cmd_fetch_def cmd_rev_list_def cmd_diff_unmerged_def
  cmd_stash_push_def cmd_stash_pop_def cmd_pull_def cmd_add_def

lemmas executor_defs =
  pull_repository_def pull_repository_body_def get_repo_status_def get_repo_status_body_def
  get_sync_status_def stash_if_dirty_def finish_pull_def run_def

text \<open>
  Claim C5. For a path that does not exist, \<open>pull_repository\<close> returns at once a
  failure result with no conflicts; the state is the one before, so no subprocess was
  invoked and nothing else was done.
\<close>

theorem missing_path_fails_at_once:
  assumes "\<not> path_exists h path (fst s)"
  shows "pull_repository h strategy path br s =
           (Inr \<lparr>success = False, message = msg_path_missing @ path, conflicts = [],
                  auto_resolved = False\<rparr>, s)"
  using assms by (simp add: pull_repository_def mk_PullResult_def)

theorem missing_path_fails_at_once_witness:
  "\<not> path_exists silent_host ''/gone'' (fst (([], []) :: (string \<times> string) list state))
   \<and> pull_repository silent_host ''smart_merge'' ''/gone'' (Some ''main'') ([], []) =
       (Inr \<lparr>success = False, message = msg_path_missing @ ''/gone'', conflicts = [],
              auto_resolved = False\<rparr>, ([], []))"
proof -
  have e: "\<not> path_exists silent_host ''/gone'' (fst (([], []) :: (string \<times> string) list state))"
    by (simp add: silent_host_def scripted_host_def)
  show ?thesis
    using e missing_path_fails_at_once [OF e, of "''smart_merge''" "Some ''main''"] by simp
qed

lemma mk_PullResult_simps:
  "success (mk_PullResult ok msg cs) = ok"
  "message (mk_PullResult ok msg cs) = msg"
  "conflicts (mk_PullResult ok msg cs) = cs"
  "auto_resolved (mk_PullResult ok msg cs) = False"
  by (simp_all add: mk_PullResult_def)

lemma msg_nonempty:
  "msg_path_missing \<noteq> []" "msg_pull_timeout \<noteq> []" "msg_pull_exception \<noteq> []"
  "msg_unresolved \<noteq> []" "msg_pull_conflict \<noteq> []" "msg_pull_failed \<noteq> []"
  by (simp_all add: msg_path_missing_def msg_pull_timeout_def msg_pull_exception_def
      msg_unresolved_def msg_pull_conflict_def msg_pull_failed_def)

lemma finish_pull_result:
  assumes "finish_pull h path stashed pr s = (Inr r, s')"
  shows "(success r \<longleftrightarrow> returncode pr = 0) \<and> (success r \<or> message r \<noteq> [])"
  using assms
  by (auto simp: finish_pull_def mk_PullResult_simps msg_nonempty
        split: if_splits prod.splits sum.splits)

text \<open>The ways through the body of \<open>pull_repository\<close>.\<close>

lemma body_cases:
  assumes b: "pull_repository_body h strategy path br s = (x, s')"
  obtains
    (status_raised) e where "get_repo_status h path s = (Inl e, s')" "x = Inl e"
  | (unresolved) st s1 u where "get_repo_status h path s = (Inr st, s1)" "has_conflicts st"
      "resolve_conflicts h strategy path s1 = (u, s')" "u \<noteq> []"
      "x = Inr (mk_PullResult False (msg_unresolved @ join '', '' u) u)"
  | (stash_raised) st s1 u s2 e where "get_repo_status h path s = (Inr st, s1)"
      "(if has_conflicts st then resolve_conflicts h strategy path s1 else ([], s1)) = (u, s2)"
      "stash_if_dirty h path st s2 = (Inl e, s')" "x = Inl e"
  | (pull_raised) st s1 u s2 stashed s3 e where "get_repo_status h path s = (Inr st, s1)"
      "(if has_conflicts st then resolve_conflicts h strategy path s1 else ([], s1)) = (u, s2)"
      "stash_if_dirty h path st s2 = (Inr stashed, s3)"
      "run h (cmd_pull br) (Some path) s3 = (Inl e, s')" "x = Inl e"
  | (pulled) st s1 u s2 stashed s3 pr s4 where "get_repo_status h path s = (Inr st, s1)"
      "(if has_conflicts st then resolve_conflicts h strategy path s1 else ([], s1)) = (u, s2)"
      "\<not> (has_conflicts st \<and> u \<noteq> [])"
      "stash_if_dirty h path st s2 = (Inr stashed, s3)"
      "run h (cmd_pull br) (Some path) s3 = (Inr pr, s4)"
      "finish_pull h path stashed pr s4 = (x, s')"
proof -
  obtain gs s1 where g: "get_repo_status h path s = (gs, s1)"
    by (cases "get_repo_status h path s") auto
  show thesis
  proof (cases gs)
    case (Inl e)
    with b g have "x = Inl e" "s' = s1" by (simp_all add: pull_repository_body_def)
    with g Inl show thesis using status_raised by simp
  next
    case st: (Inr st)
    obtain u s2 where
      r: "(if has_conflicts st then resolve_conflicts h strategy path s1 else ([], s1)) = (u, s2)"
      by (cases "if has_conflicts st then resolve_conflicts h strategy path s1 else ([], s1)") auto
    show thesis
    proof (cases "has_conflicts st \<and> u \<noteq> []")
      case True
      with b g st r have "x = Inr (mk_PullResult False (msg_unresolved @ join '', '' u) u)"
        "s' = s2"
        by (simp_all add: pull_repository_body_def)
      with g st r True show thesis using unresolved [of st s1 u] by simp
    next
      case False
      obtain sr s3 where t: "stash_if_dirty h path st s2 = (sr, s3)"
        by (cases "stash_if_dirty h path st s2") auto
      show thesis
      proof (cases sr)
        case (Inl e)
        with b g st r False t have "x = Inl e" "s' = s3"
          by (simp_all add: pull_repository_body_def)
        with g st r t Inl show thesis using stash_raised [of st s1 u s2 e] by simp
      next
        case stashed: (Inr stashed)
        obtain pr s4 where p: "run h (cmd_pull br) (Some path) s3 = (pr, s4)"
          by (cases "run h (cmd_pull br) (Some path) s3") auto
        show thesis
        proof (cases pr)
          case (Inl e)
          with b g st r False t stashed p have "x = Inl e" "s' = s4"
            by (simp_all add: pull_repository_body_def)
          with g st r t stashed p Inl show thesis
            using pull_raised [of st s1 u s2 stashed s3 e] by simp
        next
          case (Inr c)
          with b g st r False t stashed p have "finish_pull h path stashed c s4 = (x, s')"
            by (simp add: pull_repository_body_def)
          with g st r False t stashed p Inr show thesis
            using pulled [of st s1 u s2 stashed s3 c s4] by simp
        qed
      qed
    qed
  qed
qed

lemma body_result:
  assumes b: "pull_repository_body h strategy path br s = (Inr r, s')"
  shows "success r \<or> message r \<noteq> []"
  using b
proof (cases rule: body_cases)
  case (unresolved st s1 u)
  then show ?thesis by (simp add: mk_PullResult_simps msg_nonempty)
next
  case (pulled st s1 u s2 stashed s3 pr s4)
  then show ?thesis using finish_pull_result [of h path stashed pr s4 r s'] by blast
qed simp_all

lemma body_raised:
  assumes ex: "path_exists h path (fst s)"
    and b: "pull_repository_body h strategy path br s = (Inl e, s')"
  shows "pull_repository h strategy path br s =
           (Inr (mk_PullResult False
                   (if is_TimeoutExpired e then msg_pull_timeout @ path
                    else msg_pull_exception @ exc_str e) []), s')"
proof -
  have "is_Exception e" by (cases e) simp_all
  with ex b show ?thesis by (simp add: pull_repository_def)
qed

lemma body_unresolved:
  assumes status: "get_repo_status h path s = (Inr st, s1)"
    and c: "has_conflicts st"
    and r: "resolve_conflicts h strategy path s1 = (u, s2)" "u \<noteq> []"
  shows "pull_repository_body h strategy path br s =
           (Inr (mk_PullResult False (msg_unresolved @ join '', '' u) u), s2)"
  using assms by (simp add: pull_repository_body_def)

lemma body_after_resolve:
  assumes status: "get_repo_status h path s = (Inr st, s1)"
    and resolved:
      "(if has_conflicts st then resolve_conflicts h strategy path s1 else ([], s1)) = (u, s2)"
      "\<not> (has_conflicts st \<and> u \<noteq> [])"
  shows "pull_repository_body h strategy path br s =
           (case stash_if_dirty h path st s2 of
              (Inl e, s3) \<Rightarrow> (Inl e, s3)
            | (Inr stashed, s3) \<Rightarrow>
                (case run h (cmd_pull br) (Some path) s3 of
                   (Inl e, s4) \<Rightarrow> (Inl e, s4)
                 | (Inr pull_result, s4) \<Rightarrow> finish_pull h path stashed pull_result s4))"
proof (cases "has_conflicts st")
  case True
  with resolved have "resolve_conflicts h strategy path s1 = ([], s2)" by simp
  with True status show ?thesis by (simp add: pull_repository_body_def)
next
  case False
  with resolved have "s2 = s1" by simp
  with False status show ?thesis by (simp add: pull_repository_body_def)
qed

text \<open>
  What each failing step of the pull gives. An exception of the status query reaches
  \<open>pull_repository\<close> through \<open>get_repo_status\<close>, which has turned a \<open>TimeoutExpired\<close>
  into a \<open>TimeoutError\<close>; so it is reported with the exception prefix.
\<close>

lemma status_body_raised:
  assumes ex: "path_exists h path (fst s)"
    and b: "get_repo_status_body h path s = (Inl e, s1)"
  shows "pull_repository h strategy path br s =
           (Inr (mk_PullResult False
                   (msg_pull_exception @
                      (if is_TimeoutExpired e then msg_git_timeout @ path else exc_str e)) []),
            s1)"
proof -
  let ?e = "if is_TimeoutExpired e then TimeoutError (msg_git_timeout @ path) else e"
  have "get_repo_status h path s = (Inl ?e, s1)"
    using ex b by (simp add: get_repo_status_def)
  then have "pull_repository_body h strategy path br s = (Inl ?e, s1)"
    by (simp add: pull_repository_body_def)
  from body_raised [OF ex this] show ?thesis by (cases e) simp_all
qed

lemma rev_parse_raised:
  assumes ex: "path_exists h path (fst s)"
    and r: "run h cmd_rev_parse (Some path) s = (Inl e, s1)"
  shows "pull_repository h strategy path br s =
           (Inr (mk_PullResult False
                   (msg_pull_exception @
                      (if is_TimeoutExpired e then msg_git_timeout @ path else exc_str e)) []),
            s1)"
proof -
  have "get_repo_status_body h path s = (Inl e, s1)"
    using r by (simp add: get_repo_status_body_def)
  from status_body_raised [OF ex this] show ?thesis .
qed

lemma not_a_repository:
  assumes ex: "path_exists h path (fst s)"
    and r: "run h cmd_rev_parse (Some path) s = (Inr rp, s1)" "returncode rp \<noteq> 0"
  shows "pull_repository h strategy path br s =
           (Inr (mk_PullResult False (msg_pull_exception @ msg_not_repo @ path) []), s1)"
proof -
  have "get_repo_status_body h path s = (Inl (ValueError (msg_not_repo @ path)), s1)"
    using r by (simp add: get_repo_status_body_def)
  from status_body_raised [OF ex this] show ?thesis by simp
qed

lemma status_query_raised:
  assumes ex: "path_exists h path (fst s)"
    and r: "run h cmd_rev_parse (Some path) s = (Inr rp, s1)" "returncode rp = 0"
    and q: "run h cmd_status (Some path) s1 = (Inl e, s2)"
  shows "pull_repository h strategy path br s =
           (Inr (mk_PullResult False
                   (msg_pull_exception @
                      (if is_TimeoutExpired e then msg_git_timeout @ path else exc_str e)) []),
            s2)"
proof -
  have "get_repo_status_body h path s = (Inl e, s2)"
    using r q by (simp add: get_repo_status_body_def)
  from status_body_raised [OF ex this] show ?thesis .
qed

lemma stash_push_raised:
  assumes ex: "path_exists h path (fst s)"
    and status: "get_repo_status h path s = (Inr st, s1)"
    and resolved:
      "(if has_conflicts st then resolve_conflicts h strategy path s1 else ([], s1)) = (u, s2)"
      "\<not> (has_conflicts st \<and> u \<noteq> [])"
    and dirty: "\<not> is_clean st"
    and push: "run h cmd_stash_push (Some path) s2 = (Inl e, s3)"
  shows "pull_repository h strategy path br s =
           (Inr (mk_PullResult False
                   (if is_TimeoutExpired e then msg_pull_timeout @ path
                    else msg_pull_exception @ exc_str e) []), s3)"
proof -
  have "stash_if_dirty h path st s2 = (Inl e, s3)"
    using dirty push by (simp add: stash_if_dirty_def)
  with body_after_resolve [OF status resolved, of br]
  have "pull_repository_body h strategy path br s = (Inl e, s3)" by simp
  from body_raised [OF ex this] show ?thesis .
qed

lemma pull_raised:
  assumes ex: "path_exists h path (fst s)"
    and status: "get_repo_status h path s = (Inr st, s1)"
    and resolved:
      "(if has_conflicts st then resolve_conflicts h strategy path s1 else ([], s1)) = (u, s2)"
      "\<not> (has_conflicts st \<and> u \<noteq> [])"
    and stash: "stash_if_dirty h path st s2 = (Inr stashed, s3)"
    and pull: "run h (cmd_pull br) (Some path) s3 = (Inl e, s4)"
  shows "pull_repository h strategy path br s =
           (Inr (mk_PullResult False
                   (if is_TimeoutExpired e then msg_pull_timeout @ path
                    else msg_pull_exception @ exc_str e) []), s4)"
proof -
  from body_after_resolve [OF status resolved, of br] stash pull
  have "pull_repository_body h strategy path br s = (Inl e, s4)" by simp
  from body_raised [OF ex this] show ?thesis .
qed

lemma pull_exit_nonzero:
  assumes ex: "path_exists h path (fst s)"
    and status: "get_repo_status h path s = (Inr st, s1)"
    and resolved:
      "(if has_conflicts st then resolve_conflicts h strategy path s1 else ([], s1)) = (u, s2)"
      "\<not> (has_conflicts st \<and> u \<noteq> [])"
    and stash: "stash_if_dirty h path st s2 = (Inr stashed, s3)"
    and pull: "run h (cmd_pull br) (Some path) s3 = (Inr pr, s4)"
    and fails: "returncode pr \<noteq> 0"
  shows "pull_repository h strategy path br s =
           (Inr (mk_PullResult False
                   ((if contains ''conflict'' (lower (stderr pr)) then msg_pull_conflict
                     else msg_pull_failed) @ stderr pr)
                   (if contains ''conflict'' (lower (stderr pr))
                    then parse_conflicts (stderr pr) else [])), s4)"
proof -
  from body_after_resolve [OF status resolved, of br] stash pull fails
  have "pull_repository_body h strategy path br s =
          (Inr (mk_PullResult False
                   ((if contains ''conflict'' (lower (stderr pr)) then msg_pull_conflict
                     else msg_pull_failed) @ stderr pr)
                   (if contains ''conflict'' (lower (stderr pr))
                    then parse_conflicts (stderr pr) else [])), s4)"
    by (simp add: finish_pull_def)
  with ex show ?thesis by (simp add: pull_repository_def)
qed

lemma stash_pop_raised:
  assumes ex: "path_exists h path (fst s)"
    and status: "get_repo_status h path s = (Inr st, s1)"
    and resolved:
      "(if has_conflicts st then resolve_conflicts h strategy path s1 else ([], s1)) = (u, s2)"
      "\<not> (has_conflicts st \<and> u \<noteq> [])"
    and stash: "stash_if_dirty h path st s2 = (Inr True, s3)"
    and pull: "run h (cmd_pull br) (Some path) s3 = (Inr pr, s4)" "returncode pr = 0"
    and pop: "run h cmd_stash_pop (Some path) s4 = (Inl e, s5)"
  shows "pull_repository h strategy path br s =
           (Inr (mk_PullResult False
                   (if is_TimeoutExpired e then msg_pull_timeout @ path
                    else msg_pull_exception @ exc_str e) []), s5)"
proof -
  have "finish_pull h path True pr s4 = (Inl e, s5)"
    using pull pop by (simp add: finish_pull_def)
  with body_after_resolve [OF status resolved, of br] stash pull
  have "pull_repository_body h strategy path br s = (Inl e, s5)" by simp
  from body_raised [OF ex this] show ?thesis .
qed

lemma pull_repository_total:
  "\<exists>r s'. pull_repository h strategy path br s = (Inr r, s')"
proof (cases "path_exists h path (fst s)")
  case False
  then show ?thesis by (simp add: pull_repository_def)
next
  case True
  obtain x t where b: "pull_repository_body h strategy path br s = (x, t)"
    by (cases "pull_repository_body h strategy path br s") auto
  show ?thesis
  proof (cases x)
    case (Inl e)
    with body_raised [OF True, of strategy br e t] b show ?thesis by simp
  next
    case (Inr r)
    with True b show ?thesis by (simp add: pull_repository_def)
  qed
qed

lemma failure_has_message:
  assumes p: "pull_repository h strategy path br s = (Inr r, s')"
  shows "success r \<or> message r \<noteq> []"
proof (cases "path_exists h path (fst s)")
  case False
  with p show ?thesis by (auto simp: pull_repository_def mk_PullResult_simps msg_nonempty)
next
  case True
  obtain x t where b: "pull_repository_body h strategy path br s = (x, t)"
    by (cases "pull_repository_body h strategy path br s") auto
  show ?thesis
  proof (cases x)
    case (Inl e)
    with body_raised [OF True, of strategy br e t] b p show ?thesis
      by (auto simp: mk_PullResult_simps msg_nonempty)
  next
    case (Inr r')
    with True b p have "r' = r" "t = s'" by (auto simp: pull_repository_def)
    with body_result [of h strategy path br s r s'] b Inr show ?thesis by simp
  qed
qed

text \<open>
  Claim C6, as amended. For every host, strategy, path, branch and state, whatever the
  subprocesses and the file system answer, \<open>pull_repository\<close> returns a result and no
  exception leaves it, and a result that is not a success carries a message. On an
  existing path each of these events gives a failure result:
  \<^item> the repository check raises (a timeout or any other exception): the exception
    message, or for a timeout the git timeout message, after the exception prefix;
  \<^item> the repository check exits with a code other than 0, so the path is not a
    repository: the not-a-repository message after the exception prefix;
  \<^item> the status query raises: as for the repository check;
  \<^item> conflicts are left unresolved: the result lists them;
  \<^item> the tree is not clean and the stash raises; the pull raises; the pull has exited
    with 0, a stash was made and restoring it raises: the pull timeout message for a
    timeout, else the exception's message after the exception prefix;
  \<^item> the pull exits with a code other than 0: the conflict or the failure prefix before
    the error text of the pull.
  In all of them but the unresolved conflicts and the failed pull the conflict list is
  empty.
\<close>

theorem pull_repository_never_raises:
  "\<exists>r s'. pull_repository h strategy path br s = (Inr r, s')
      \<and> (success r \<or> message r \<noteq> [])
      \<and> (\<forall>e s1. path_exists h path (fst s)
               \<and> run h cmd_rev_parse (Some path) s = (Inl e, s1) \<longrightarrow>
            \<not> success r \<and> conflicts r = []
            \<and> message r = msg_pull_exception @
                 (if is_TimeoutExpired e then msg_git_timeout @ path else exc_str e))
      \<and> (\<forall>rp s1. path_exists h path (fst s)
               \<and> run h cmd_rev_parse (Some path) s = (Inr rp, s1) \<and> returncode rp \<noteq> 0 \<longrightarrow>
            \<not> success r \<and> conflicts r = []
            \<and> message r = msg_pull_exception @ msg_not_repo @ path)
      \<and> (\<forall>rp s1 e s2. path_exists h path (fst s)
               \<and> run h cmd_rev_parse (Some path) s = (Inr rp, s1) \<and> returncode rp = 0
               \<and> run h cmd_status (Some path) s1 = (Inl e, s2) \<longrightarrow>
            \<not> success r \<and> conflicts r = []
            \<and> message r = msg_pull_exception @
                 (if is_TimeoutExpired e then msg_git_timeout @ path else exc_str e))
      \<and> (\<forall>st s1 u s2. path_exists h path (fst s)
               \<and> get_repo_status h path s = (Inr st, s1) \<and> has_conflicts st
               \<and> resolve_conflicts h strategy path s1 = (u, s2) \<and> u \<noteq> [] \<longrightarrow>
            \<not> success r \<and> conflicts r = u \<and> message r = msg_unresolved @ join '', '' u)
      \<and> (\<forall>st s1 u s2 e s3. path_exists h path (fst s)
               \<and> get_repo_status h path s = (Inr st, s1)
               \<and> (if has_conflicts st then resolve_conflicts h strategy path s1
                    else ([], s1)) = (u, s2)
               \<and> \<not> (has_conflicts st \<and> u \<noteq> [])
               \<and> \<not> is_clean st
               \<and> run h cmd_stash_push (Some path) s2 = (Inl e, s3) \<longrightarrow>
            \<not> success r \<and> conflicts r = []
            \<and> message r = (if is_TimeoutExpired e then msg_pull_timeout @ path
                             else msg_pull_exception @ exc_str e))
      \<and> (\<forall>st s1 u s2 stashed s3 e s4. path_exists h path (fst s)
               \<and> get_repo_status h path s = (Inr st, s1)
               \<and> (if has_conflicts st then resolve_conflicts h strategy path s1
                    else ([], s1)) = (u, s2)
               \<and> \<not> (has_conflicts st \<and> u \<noteq> [])
               \<and> stash_if_dirty h path st s2 = (Inr stashed, s3)
               \<and> run h (cmd_pull br) (Some path) s3 = (Inl e, s4) \<longrightarrow>
            \<not> success r \<and> conflicts r = []
            \<and> message r = (if is_TimeoutExpired e then msg_pull_timeout @ path
                             else msg_pull_exception @ exc_str e))
      \<and> (\<forall>st s1 u s2 stashed s3 pr s4. path_exists h path (fst s)
               \<and> get_repo_status h path s = (Inr st, s1)
               \<and> (if has_conflicts st then resolve_conflicts h strategy path s1
                    else ([], s1)) = (u, s2)
               \<and> \<not> (has_conflicts st \<and> u \<noteq> [])
               \<and> stash_if_dirty h path st s2 = (Inr stashed, s3)
               \<and> run h (cmd_pull br) (Some path) s3 = (Inr pr, s4)
               \<and> returncode pr \<noteq> 0 \<longrightarrow>
            \<not> success r
            \<and> message r = (if contains ''conflict'' (lower (stderr pr)) then msg_pull_conflict
                             else msg_pull_failed) @ stderr pr
            \<and> message r \<noteq> [])
      \<and> (\<forall>st s1 u s2 s3 pr s4 e s5. path_exists h path (fst s)
               \<and> get_repo_status h path s = (Inr st, s1)
               \<and> (if has_conflicts st then resolve_conflicts h strategy path s1
                    else ([], s1)) = (u, s2)
               \<and> \<not> (has_conflicts st \<and> u \<noteq> [])
               \<and> stash_if_dirty h path st s2 = (Inr True, s3)
               \<and> run h (cmd_pull br) (Some path) s3 = (Inr pr, s4)
               \<and> returncode pr = 0
               \<and> run h cmd_stash_pop (Some path) s4 = (Inl e, s5) \<longrightarrow>
            \<not> success r \<and> conflicts r = []
            \<and> message r = (if is_TimeoutExpired e then msg_pull_timeout @ path
                             else msg_pull_exception @ exc_str e))"
proof -
  obtain r s' where p: "pull_repository h strategy path br s = (Inr r, s')"
    using pull_repository_total [of h strategy path br s] by blast
  have A: "success r \<or> message r \<noteq> []"
    by (rule failure_has_message [OF p])
  have E1: "\<forall>e s1. path_exists h path (fst s)
               \<and> run h cmd_rev_parse (Some path) s = (Inl e, s1) \<longrightarrow>
            \<not> success r \<and> conflicts r = []
            \<and> message r = msg_pull_exception @
                 (if is_TimeoutExpired e then msg_git_timeout @ path else exc_str e)"
  proof (intro allI impI, elim conjE)
    fix e s1
    assume ex: "path_exists h path (fst s)"
      and h: "run h cmd_rev_parse (Some path) s = (Inl e, s1)"
    from rev_parse_raised [OF ex h, of strategy br] p
    show "\<not> success r \<and> conflicts r = []
            \<and> message r = msg_pull_exception @
                 (if is_TimeoutExpired e then msg_git_timeout @ path else exc_str e)"
      by (auto simp: mk_PullResult_simps)
  qed
  have E2: "\<forall>rp s1. path_exists h path (fst s)
               \<and> run h cmd_rev_parse (Some path) s = (Inr rp, s1) \<and> returncode rp \<noteq> 0 \<longrightarrow>
            \<not> success r \<and> conflicts r = []
            \<and> message r = msg_pull_exception @ msg_not_repo @ path"
  proof (intro allI impI, elim conjE)
    fix rp s1
    assume ex: "path_exists h path (fst s)"
      and h: "run h cmd_rev_parse (Some path) s = (Inr rp, s1)" "returncode rp \<noteq> 0"
    from not_a_repository [OF ex h, of strategy br] p
    show "\<not> success r \<and> conflicts r = []
            \<and> message r = msg_pull_exception @ msg_not_repo @ path"
      by (auto simp: mk_PullResult_simps)
  qed
  have E3: "\<forall>rp s1 e s2. path_exists h path (fst s)
               \<and> run h cmd_rev_parse (Some path) s = (Inr rp, s1) \<and> returncode rp = 0
               \<and> run h cmd_status (Some path) s1 = (Inl e, s2) \<longrightarrow>
            \<not> success r \<and> conflicts r = []
            \<and> message r = msg_pull_exception @
                 (if is_TimeoutExpired e then msg_git_timeout @ path else exc_str e)"
  proof (intro allI impI, elim conjE)
    fix rp s1 e s2
    assume ex: "path_exists h path (fst s)"
      and h: "run h cmd_rev_parse (Some path) s = (Inr rp, s1)" "returncode rp = 0"
        "run h cmd_status (Some path) s1 = (Inl e, s2)"
    from status_query_raised [OF ex h, of strategy br] p
    show "\<not> success r \<and> conflicts r = []
            \<and> message r = msg_pull_exception @
                 (if is_TimeoutExpired e then msg_git_timeout @ path else exc_str e)"
      by (auto simp: mk_PullResult_simps)
  qed
  have E4: "\<forall>st s1 u s2. path_exists h path (fst s)
               \<and> get_repo_status h path s = (Inr st, s1) \<and> has_conflicts st
               \<and> resolve_conflicts h strategy path s1 = (u, s2) \<and> u \<noteq> [] \<longrightarrow>
            \<not> success r \<and> conflicts r = u \<and> message r = msg_unresolved @ join '', '' u"
  proof (intro allI impI, elim conjE)
    fix st s1 u s2
    assume ex: "path_exists h path (fst s)"
      and h: "get_repo_status h path s = (Inr st, s1)" "has_conflicts st"
        "resolve_conflicts h strategy path s1 = (u, s2)" "u \<noteq> []"
    from body_unresolved [OF h, of br] ex p
    have "r = mk_PullResult False (msg_unresolved @ join '', '' u) u"
      by (simp add: pull_repository_def)
    then show "\<not> success r \<and> conflicts r = u \<and> message r = msg_unresolved @ join '', '' u"
      by (simp add: mk_PullResult_simps)
  qed
  have E5: "\<forall>st s1 u s2 e s3. path_exists h path (fst s)
               \<and> get_repo_status h path s = (Inr st, s1)
               \<and> (if has_conflicts st then resolve_conflicts h strategy path s1
                    else ([], s1)) = (u, s2)
               \<and> \<not> (has_conflicts st \<and> u \<noteq> [])
               \<and> \<not> is_clean st
               \<and> run h cmd_stash_push (Some path) s2 = (Inl e, s3) \<longrightarrow>
            \<not> success r \<and> conflicts r = []
            \<and> message r = (if is_TimeoutExpired e then msg_pull_timeout @ path
                             else msg_pull_exception @ exc_str e)"
  proof (intro allI impI, elim conjE)
    fix st s1 u s2 e s3
    assume ex: "path_exists h path (fst s)"
      and h: "get_repo_status h path s = (Inr st, s1)"
        "(if has_conflicts st then resolve_conflicts h strategy path s1 else ([], s1)) = (u, s2)"
        "\<not> (has_conflicts st \<and> u \<noteq> [])" "\<not> is_clean st"
        "run h cmd_stash_push (Some path) s2 = (Inl e, s3)"
    from stash_push_raised [OF ex h] p
    show "\<not> success r \<and> conflicts r = []
            \<and> message r = (if is_TimeoutExpired e then msg_pull_timeout @ path
                             else msg_pull_exception @ exc_str e)"
      by (auto simp: mk_PullResult_simps)
  qed
  have E6: "\<forall>st s1 u s2 stashed s3 e s4. path_exists h path (fst s)
               \<and> get_repo_status h path s = (Inr st, s1)
               \<and> (if has_conflicts st then resolve_conflicts h strategy path s1
                    else ([], s1)) = (u, s2)
               \<and> \<not> (has_conflicts st \<and> u \<noteq> [])
               \<and> stash_if_dirty h path st s2 = (Inr stashed, s3)
               \<and> run h (cmd_pull br) (Some path) s3 = (Inl e, s4) \<longrightarrow>
            \<not> success r \<and> conflicts r = []
            \<and> message r = (if is_TimeoutExpired e then msg_pull_timeout @ path
                             else msg_pull_exception @ exc_str e)"
  proof (intro allI impI, elim conjE)
    fix st s1 u s2 stashed s3 e s4
    assume ex: "path_exists h path (fst s)"
      and h: "get_repo_status h path s = (Inr st, s1)"
        "(if has_conflicts st then resolve_conflicts h strategy path s1 else ([], s1)) = (u, s2)"
        "\<not> (has_conflicts st \<and> u \<noteq> [])" "stash_if_dirty h path st s2 = (Inr stashed, s3)"
        "run h (cmd_pull br) (Some path) s3 = (Inl e, s4)"
    from pull_raised [OF ex h] p
    show "\<not> success r \<and> conflicts r = []
            \<and> message r = (if is_TimeoutExpired e then msg_pull_timeout @ path
                             else msg_pull_exception @ exc_str e)"
      by (auto simp: mk_PullResult_simps)
  qed
  have E7: "\<forall>st s1 u s2 stashed s3 pr s4. path_exists h path (fst s)
               \<and> get_repo_status h path s = (Inr st, s1)
               \<and> (if has_conflicts st then resolve_conflicts h strategy path s1
                    else ([], s1)) = (u, s2)
               \<and> \<not> (has_conflicts st \<and> u \<noteq> [])
               \<and> stash_if_dirty h path st s2 = (Inr stashed, s3)
               \<and> run h (cmd_pull br) (Some path) s3 = (Inr pr, s4)
               \<and> returncode pr \<noteq> 0 \<longrightarrow>
            \<not> success r
            \<and> message r = (if contains ''conflict'' (lower (stderr pr)) then msg_pull_conflict
                             else msg_pull_failed) @ stderr pr
            \<and> message r \<noteq> []"
  proof (intro allI impI, elim conjE)
    fix st s1 u s2 stashed s3 pr s4
    assume ex: "path_exists h path (fst s)"
      and h: "get_repo_status h path s = (Inr st, s1)"
        "(if has_conflicts st then resolve_conflicts h strategy path s1 else ([], s1)) = (u, s2)"
        "\<not> (has_conflicts st \<and> u \<noteq> [])" "stash_if_dirty h path st s2 = (Inr stashed, s3)"
        "run h (cmd_pull br) (Some path) s3 = (Inr pr, s4)" "returncode pr \<noteq> 0"
    from pull_exit_nonzero [OF ex h] p
    show "\<not> success r
            \<and> message r = (if contains ''conflict'' (lower (stderr pr)) then msg_pull_conflict
                             else msg_pull_failed) @ stderr pr
            \<and> message r \<noteq> []"
      by (auto simp: mk_PullResult_simps msg_nonempty)
  qed
  have E8: "\<forall>st s1 u s2 s3 pr s4 e s5. path_exists h path (fst s)
               \<and> get_repo_status h path s = (Inr st, s1)
               \<and> (if has_conflicts st then resolve_conflicts h strategy path s1
                    else ([], s1)) = (u, s2)
               \<and> \<not> (has_conflicts st \<and> u \<noteq> [])
               \<and> stash_if_dirty h path st s2 = (Inr True, s3)
               \<and> run h (cmd_pull br) (Some path) s3 = (Inr pr, s4)
               \<and> returncode pr = 0
               \<and> run h cmd_stash_pop (Some path) s4 = (Inl e, s5) \<longrightarrow>
            \<not> success r \<and> conflicts r = []
            \<and> message r = (if is_TimeoutExpired e then msg_pull_timeout @ path
                             else msg_pull_exception @ exc_str e)"
  proof (intro allI impI, elim conjE)
    fix st s1 u s2 s3 pr s4 e s5
    assume ex: "path_exists h path (fst s)"
      and h: "get_repo_status h path s = (Inr st, s1)"
        "(if has_conflicts st then resolve_conflicts h strategy path s1 else ([], s1)) = (u, s2)"
        "\<not> (has_conflicts st \<and> u \<noteq> [])" "stash_if_dirty h path st s2 = (Inr True, s3)"
        "run h (cmd_pull br) (Some path) s3 = (Inr pr, s4)" "returncode pr = 0"
        "run h cmd_stash_pop (Some path) s4 = (Inl e, s5)"
    from stash_pop_raised [OF ex h] p
    show "\<not> success r \<and> conflicts r = []
            \<and> message r = (if is_TimeoutExpired e then msg_pull_timeout @ path
                             else msg_pull_exception @ exc_str e)"
      by (auto simp: mk_PullResult_simps)
  qed
  show ?thesis
    by (rule exI [of _ r], rule exI [of _ s'], intro conjI)
      (rule p A E1 E2 E3 E4 E5 E6 E7 E8)+
qed

lemma clean_status:
  assumes "script cmd_rev_parse = Inr \<lparr>returncode = 0, stdout = [], stderr = []\<rparr>"
    and "script cmd_status = Inr \<lparr>returncode = 0, stdout = [], stderr = []\<rparr>"
    and "script cmd_fetch = Inr \<lparr>returncode = 0, stdout = [], stderr = []\<rparr>"
    and "script cmd_rev_list = Inr \<lparr>returncode = 0, stdout = [], stderr = []\<rparr>"
  shows "get_repo_status (scripted_host script 0 []) ''/repo'' (repo_world, []) =
     (Inr \<lparr>is_clean = True, has_conflicts = False, ahead_commits = 0, behind_commits = 0,
            untracked_files = [], modified_files = [], staged_files = []\<rparr>,
      (repo_world, [cmd_rev_parse, cmd_status, cmd_fetch, cmd_rev_list]))"
  using assms
  by (simp add: get_repo_status_def get_repo_status_body_def get_sync_status_def run_def
        scripted_host_def repo_world_def splitlines_def strip_def)

theorem pull_repository_never_raises_witness:
  "(\<exists>r s'. pull_repository timeout_host ''smart_merge'' ''/repo'' (Some ''main'')
          (repo_world, []) = (Inr r, s')
        \<and> \<not> success r \<and> conflicts r = []
        \<and> message r = msg_pull_exception @ msg_git_timeout @ ''/repo'')
   \<and> (\<exists>r s'. pull_repository not_a_repo_host ''smart_merge'' ''/repo'' (Some ''main'')
          (repo_world, []) = (Inr r, s')
        \<and> \<not> success r \<and> conflicts r = []
        \<and> message r = msg_pull_exception @ msg_not_repo @ ''/repo'')
   \<and> (\<exists>r s'. pull_repository status_timeout_host ''smart_merge'' ''/repo'' (Some ''main'')
          (repo_world, []) = (Inr r, s')
        \<and> \<not> success r \<and> conflicts r = []
        \<and> message r = msg_pull_exception @ msg_git_timeout @ ''/repo'')
   \<and> (\<exists>r s'. pull_repository pull_timeout_host ''smart_merge'' ''/repo'' (Some ''main'')
          (repo_world, []) = (Inr r, s')
        \<and> \<not> success r \<and> conflicts r = []
        \<and> message r = msg_pull_timeout @ ''/repo'')
   \<and> (\<exists>r s'. pull_repository pull_refused_host ''smart_merge'' ''/repo'' (Some ''main'')
          (repo_world, []) = (Inr r, s')
        \<and> \<not> success r
        \<and> message r = msg_pull_failed @ refused_text)
   \<and> (\<exists>r s'. pull_repository pop_timeout_host ''smart_merge'' ''/repo'' (Some ''main'')
          (repo_world, []) = (Inr r, s')
        \<and> \<not> success r \<and> conflicts r = []
        \<and> message r = msg_pull_timeout @ ''/repo'')"
proof (intro conjI)
  let ?s = "(repo_world, []) :: (string \<times> string) list state"
  let ?clean = "\<lparr>is_clean = True, has_conflicts = False, ahead_commits = 0, behind_commits = 0,
            untracked_files = [], modified_files = [], staged_files = []\<rparr>"
  let ?s1 = "(repo_world, [cmd_rev_parse, cmd_status, cmd_fetch, cmd_rev_list])"
  show "\<exists>r s'. pull_repository timeout_host ''smart_merge'' ''/repo'' (Some ''main'') ?s
          = (Inr r, s')
        \<and> \<not> success r \<and> conflicts r = []
        \<and> message r = msg_pull_exception @ msg_git_timeout @ ''/repo''"
  proof -
    have ex: "path_exists timeout_host ''/repo'' (fst ?s)"
      by (simp add: timeout_host_def scripted_host_def repo_world_def)
    have ev: "run timeout_host cmd_rev_parse (Some ''/repo'') ?s =
                (Inl (TimeoutExpired ''timed out''), (repo_world, [cmd_rev_parse]))"
      by (simp add: run_def timeout_host_def scripted_host_def)
    obtain r s' where
      p: "pull_repository timeout_host ''smart_merge'' ''/repo'' (Some ''main'') ?s = (Inr r, s')"
      and m: "\<forall>e s1. path_exists timeout_host ''/repo'' (fst ?s)
               \<and> run timeout_host cmd_rev_parse (Some ''/repo'') ?s = (Inl e, s1) \<longrightarrow>
            \<not> success r \<and> conflicts r = []
            \<and> message r = msg_pull_exception @
                 (if is_TimeoutExpired e then msg_git_timeout @ ''/repo'' else exc_str e)"
      using pull_repository_never_raises
        [of timeout_host "''smart_merge''" "''/repo''" "Some ''main''" ?s]
      by (elim exE conjE) (rule that; assumption)
    from m [rule_format, OF conjI [OF ex ev]]
    have "\<not> success r \<and> conflicts r = []
        \<and> message r = msg_pull_exception @ msg_git_timeout @ ''/repo''" by simp
    with p show ?thesis by blast
  qed
  show "\<exists>r s'. pull_repository not_a_repo_host ''smart_merge'' ''/repo'' (Some ''main'') ?s
          = (Inr r, s')
        \<and> \<not> success r \<and> conflicts r = []
        \<and> message r = msg_pull_exception @ msg_not_repo @ ''/repo''"
  proof -
    let ?rp = "\<lparr>returncode = 128, stdout = [], stderr = ''fatal: not a git repository''\<rparr>"
    have ex: "path_exists not_a_repo_host ''/repo'' (fst ?s)"
      by (simp add: not_a_repo_host_def scripted_host_def repo_world_def)
    have ev: "run not_a_repo_host cmd_rev_parse (Some ''/repo'') ?s
                = (Inr ?rp, (repo_world, [cmd_rev_parse])) \<and> returncode ?rp \<noteq> 0"
      by (simp add: run_def not_a_repo_host_def scripted_host_def)
    obtain r s' where
      p: "pull_repository not_a_repo_host ''smart_merge'' ''/repo'' (Some ''main'') ?s
            = (Inr r, s')"
      and m: "\<forall>rp s1. path_exists not_a_repo_host ''/repo'' (fst ?s)
               \<and> run not_a_repo_host cmd_rev_parse (Some ''/repo'') ?s = (Inr rp, s1)
               \<and> returncode rp \<noteq> 0 \<longrightarrow>
            \<not> success r \<and> conflicts r = []
            \<and> message r = msg_pull_exception @ msg_not_repo @ ''/repo''"
      using pull_repository_never_raises
        [of not_a_repo_host "''smart_merge''" "''/repo''" "Some ''main''" ?s]
      by (elim exE conjE) (rule that; assumption)
    from m [rule_format, OF conjI [OF ex ev]] p show ?thesis by blast
  qed
  show "\<exists>r s'. pull_repository status_timeout_host ''smart_merge'' ''/repo'' (Some ''main'') ?s
          = (Inr r, s')
        \<and> \<not> success r \<and> conflicts r = []
        \<and> message r = msg_pull_exception @ msg_git_timeout @ ''/repo''"
  proof -
    let ?rp = "\<lparr>returncode = 0, stdout = [], stderr = []\<rparr>"
    have ex: "path_exists status_timeout_host ''/repo'' (fst ?s)"
      by (simp add: status_timeout_host_def scripted_host_def repo_world_def)
    have ev: "run status_timeout_host cmd_rev_parse (Some ''/repo'') ?s
                = (Inr ?rp, (repo_world, [cmd_rev_parse])) \<and> returncode ?rp = 0
              \<and> run status_timeout_host cmd_status (Some ''/repo'') (repo_world, [cmd_rev_parse])
                = (Inl (TimeoutExpired ''timed out''), (repo_world, [cmd_rev_parse, cmd_status]))"
      by (simp add: run_def status_timeout_host_def scripted_host_def cmd_defs)
    obtain r s' where
      p: "pull_repository status_timeout_host ''smart_merge'' ''/repo'' (Some ''main'') ?s
            = (Inr r, s')"
      and m: "\<forall>rp s1 e s2. path_exists status_timeout_host ''/repo'' (fst ?s)
               \<and> run status_timeout_host cmd_rev_parse (Some ''/repo'') ?s = (Inr rp, s1)
               \<and> returncode rp = 0
               \<and> run status_timeout_host cmd_status (Some ''/repo'') s1 = (Inl e, s2) \<longrightarrow>
            \<not> success r \<and> conflicts r = []
            \<and> message r = msg_pull_exception @
                 (if is_TimeoutExpired e then msg_git_timeout @ ''/repo'' else exc_str e)"
      using pull_repository_never_raises
        [of status_timeout_host "''smart_merge''" "''/repo''" "Some ''main''" ?s]
      by (elim exE conjE) (rule that; assumption)
    from m [rule_format, OF conjI [OF ex ev]]
    have "\<not> success r \<and> conflicts r = []
        \<and> message r = msg_pull_exception @ msg_git_timeout @ ''/repo''" by simp
    with p show ?thesis by blast
  qed
  show "\<exists>r s'. pull_repository pull_timeout_host ''smart_merge'' ''/repo'' (Some ''main'') ?s
          = (Inr r, s')
        \<and> \<not> success r \<and> conflicts r = []
        \<and> message r = msg_pull_timeout @ ''/repo''"
  proof -
    let ?h = pull_timeout_host
    have ex: "path_exists ?h ''/repo'' (fst ?s)"
      by (simp add: pull_timeout_host_def scripted_host_def repo_world_def)
    have status: "get_repo_status ?h ''/repo'' ?s = (Inr ?clean, ?s1)"
      unfolding pull_timeout_host_def by (rule clean_status) (simp_all add: cmd_defs)
    have ev: "get_repo_status ?h ''/repo'' ?s = (Inr ?clean, ?s1)
        \<and> (if has_conflicts ?clean then resolve_conflicts ?h ''smart_merge'' ''/repo'' ?s1
            else ([], ?s1)) = ([], ?s1)
        \<and> \<not> (has_conflicts ?clean \<and> [] \<noteq> ([] :: string list))
        \<and> stash_if_dirty ?h ''/repo'' ?clean ?s1 = (Inr False, ?s1)
        \<and> run ?h (cmd_pull (Some ''main'')) (Some ''/repo'') ?s1 =
            (Inl (TimeoutExpired ''timed out''), (repo_world, snd ?s1 @ [cmd_pull (Some ''main'')]))"
      using status
      by (simp add: stash_if_dirty_def run_def pull_timeout_host_def scripted_host_def)
    obtain r s' where
      p: "pull_repository ?h ''smart_merge'' ''/repo'' (Some ''main'') ?s = (Inr r, s')"
      and m: "\<forall>st s1 u s2 stashed s3 e s4. path_exists ?h ''/repo'' (fst ?s)
               \<and> get_repo_status ?h ''/repo'' ?s = (Inr st, s1)
               \<and> (if has_conflicts st then resolve_conflicts ?h ''smart_merge'' ''/repo'' s1
                    else ([], s1)) = (u, s2)
               \<and> \<not> (has_conflicts st \<and> u \<noteq> [])
               \<and> stash_if_dirty ?h ''/repo'' st s2 = (Inr stashed, s3)
               \<and> run ?h (cmd_pull (Some ''main'')) (Some ''/repo'') s3 = (Inl e, s4) \<longrightarrow>
            \<not> success r \<and> conflicts r = []
            \<and> message r = (if is_TimeoutExpired e then msg_pull_timeout @ ''/repo''
                             else msg_pull_exception @ exc_str e)"
      using pull_repository_never_raises
        [of ?h "''smart_merge''" "''/repo''" "Some ''main''" ?s]
      by (elim exE conjE) (rule that; assumption)
    from m [rule_format, OF conjI [OF ex ev]]
    have "\<not> success r \<and> conflicts r = [] \<and> message r = msg_pull_timeout @ ''/repo''"
      by simp
    with p show ?thesis by blast
  qed
  show "\<exists>r s'. pull_repository pull_refused_host ''smart_merge'' ''/repo'' (Some ''main'') ?s
          = (Inr r, s')
        \<and> \<not> success r
        \<and> message r = msg_pull_failed @ refused_text"
  proof -
    let ?h = pull_refused_host
    let ?pr = "\<lparr>returncode = 128, stdout = [], stderr = refused_text\<rparr>"
    have ex: "path_exists ?h ''/repo'' (fst ?s)"
      by (simp add: pull_refused_host_def scripted_host_def repo_world_def)
    have status: "get_repo_status ?h ''/repo'' ?s = (Inr ?clean, ?s1)"
      unfolding pull_refused_host_def by (rule clean_status) (simp_all add: cmd_defs)
    have ev: "get_repo_status ?h ''/repo'' ?s = (Inr ?clean, ?s1)
        \<and> (if has_conflicts ?clean then resolve_conflicts ?h ''smart_merge'' ''/repo'' ?s1
            else ([], ?s1)) = ([], ?s1)
        \<and> \<not> (has_conflicts ?clean \<and> [] \<noteq> ([] :: string list))
        \<and> stash_if_dirty ?h ''/repo'' ?clean ?s1 = (Inr False, ?s1)
        \<and> run ?h (cmd_pull (Some ''main'')) (Some ''/repo'') ?s1 =
            (Inr ?pr, (repo_world, snd ?s1 @ [cmd_pull (Some ''main'')]))
        \<and> returncode ?pr \<noteq> 0"
      using status
      by (simp add: stash_if_dirty_def run_def pull_refused_host_def scripted_host_def)
    have word: "\<not> contains ''conflict'' (lower (stderr ?pr))"
      by (simp add: refused_text_def) code_simp
    obtain r s' where
      p: "pull_repository ?h ''smart_merge'' ''/repo'' (Some ''main'') ?s = (Inr r, s')"
      and m: "\<forall>st s1 u s2 stashed s3 pr s4. path_exists ?h ''/repo'' (fst ?s)
               \<and> get_repo_status ?h ''/repo'' ?s = (Inr st, s1)
               \<and> (if has_conflicts st then resolve_conflicts ?h ''smart_merge'' ''/repo'' s1
                    else ([], s1)) = (u, s2)
               \<and> \<not> (has_conflicts st \<and> u \<noteq> [])
               \<and> stash_if_dirty ?h ''/repo'' st s2 = (Inr stashed, s3)
               \<and> run ?h (cmd_pull (Some ''main'')) (Some ''/repo'') s3 = (Inr pr, s4)
               \<and> returncode pr \<noteq> 0 \<longrightarrow>
            \<not> success r
            \<and> message r = (if contains ''conflict'' (lower (stderr pr)) then msg_pull_conflict
                             else msg_pull_failed) @ stderr pr
            \<and> message r \<noteq> []"
      using pull_repository_never_raises
        [of ?h "''smart_merge''" "''/repo''" "Some ''main''" ?s]
      by (elim exE conjE) (rule that; assumption)
    from m [rule_format, OF conjI [OF ex ev]] word
    have "\<not> success r \<and> message r = msg_pull_failed @ refused_text"
      by simp
    with p show ?thesis by blast
  qed
  show "\<exists>r s'. pull_repository pop_timeout_host ''smart_merge'' ''/repo'' (Some ''main'') ?s
          = (Inr r, s')
        \<and> \<not> success r \<and> conflicts r = []
        \<and> message r = msg_pull_timeout @ ''/repo''"
  proof -
    let ?h = pop_timeout_host
    let ?dirty = "\<lparr>is_clean = False, has_conflicts = False, ahead_commits = 0,
            behind_commits = 0, untracked_files = [], modified_files = [''a.txt''],
            staged_files = []\<rparr>"
    let ?s3 = "(repo_world, [cmd_rev_parse, cmd_status, cmd_fetch, cmd_rev_list, cmd_stash_push])"
    let ?s4 = "(repo_world, [cmd_rev_parse, cmd_status, cmd_fetch, cmd_rev_list, cmd_stash_push,
                  cmd_pull (Some ''main'')])"
    let ?pr = "\<lparr>returncode = 0, stdout = [], stderr = []\<rparr>"
    have ex: "path_exists ?h ''/repo'' (fst ?s)"
      by (simp add: pop_timeout_host_def scripted_host_def repo_world_def)
    have lines: "splitlines '' M a.txt\<newline>'' = ['' M a.txt'']"
      by code_simp
    have status: "get_repo_status ?h ''/repo'' ?s = (Inr ?dirty, ?s1)"
      by (simp add: get_repo_status_def get_repo_status_body_def get_sync_status_def run_def
            scripted_host_def pop_timeout_host_def repo_world_def cmd_defs lines strip_def
            startswith_def)
    have ev: "get_repo_status ?h ''/repo'' ?s = (Inr ?dirty, ?s1)
        \<and> (if has_conflicts ?dirty then resolve_conflicts ?h ''smart_merge'' ''/repo'' ?s1
            else ([], ?s1)) = ([], ?s1)
        \<and> \<not> (has_conflicts ?dirty \<and> [] \<noteq> ([] :: string list))
        \<and> stash_if_dirty ?h ''/repo'' ?dirty ?s1 = (Inr True, ?s3)
        \<and> run ?h (cmd_pull (Some ''main'')) (Some ''/repo'') ?s3 = (Inr ?pr, ?s4)
        \<and> returncode ?pr = 0
        \<and> run ?h cmd_stash_pop (Some ''/repo'') ?s4 =
            (Inl (TimeoutExpired ''timed out''), (repo_world, snd ?s4 @ [cmd_stash_pop]))"
      using status
      by (simp add: stash_if_dirty_def run_def pop_timeout_host_def scripted_host_def cmd_defs)
    obtain r s' where
      p: "pull_repository ?h ''smart_merge'' ''/repo'' (Some ''main'') ?s = (Inr r, s')"
      and m: "\<forall>st s1 u s2 s3 pr s4 e s5. path_exists ?h ''/repo'' (fst ?s)
               \<and> get_repo_status ?h ''/repo'' ?s = (Inr st, s1)
               \<and> (if has_conflicts st then resolve_conflicts ?h ''smart_merge'' ''/repo'' s1
                    else ([], s1)) = (u, s2)
               \<and> \<not> (has_conflicts st \<and> u \<noteq> [])
               \<and> stash_if_dirty ?h ''/repo'' st s2 = (Inr True, s3)
               \<and> run ?h (cmd_pull (Some ''main'')) (Some ''/repo'') s3 = (Inr pr, s4)
               \<and> returncode pr = 0
               \<and> run ?h cmd_stash_pop (Some ''/repo'') s4 = (Inl e, s5) \<longrightarrow>
            \<not> success r \<and> conflicts r = []
            \<and> message r = (if is_TimeoutExpired e then msg_pull_timeout @ ''/repo''
                             else msg_pull_exception @ exc_str e)"
      using pull_repository_never_raises
        [of ?h "''smart_merge''" "''/repo''" "Some ''main''" ?s]
      by (elim exE conjE) (rule that; assumption)
    from m [rule_format, OF conjI [OF ex ev]]
    have "\<not> success r \<and> conflicts r = [] \<and> message r = msg_pull_timeout @ ''/repo''"
      by simp
    with p show ?thesis by blast
  qed
qed

text \<open>
  The claim as stated fails where the code absorbs a failure: a timeout of the fetch,
  and an exit code 128 of the commit count, each followed by a pull that succeeds, give
  a success.
\<close>

theorem absorbed_failures_counterexample:
  "subprocess_run fetch_timeout_host cmd_fetch (Some ''/repo'') repo_world =
     (Inl (TimeoutExpired ''timed out''), repo_world)
   \<and> pull_repository fetch_timeout_host ''smart_merge'' ''/repo'' (Some ''main'') (repo_world, []) =
       (Inr \<lparr>success = True, message = ''Already up to date.'', conflicts = [],
              auto_resolved = False\<rparr>,
        (repo_world, [cmd_rev_parse, cmd_status, cmd_fetch, cmd_pull (Some ''main'')]))
   \<and> subprocess_run no_upstream_host cmd_rev_list (Some ''/repo'') repo_world =
       (Inr \<lparr>returncode = 128, stdout = [],
              stderr = ''fatal: no upstream configured for branch''\<rparr>, repo_world)
   \<and> pull_repository no_upstream_host ''smart_merge'' ''/repo'' (Some ''main'') (repo_world, []) =
       (Inr \<lparr>success = True, message = ''Already up to date.'', conflicts = [],
              auto_resolved = False\<rparr>,
        (repo_world,
         [cmd_rev_parse, cmd_status, cmd_fetch, cmd_rev_list, cmd_pull (Some ''main'')]))"
proof (intro conjI)
  show "subprocess_run fetch_timeout_host cmd_fetch (Some ''/repo'') repo_world =
     (Inl (TimeoutExpired ''timed out''), repo_world)"
    by (simp add: fetch_timeout_host_def scripted_host_def)
  show "pull_repository fetch_timeout_host ''smart_merge'' ''/repo'' (Some ''main'') (repo_world, []) =
       (Inr \<lparr>success = True, message = ''Already up to date.'', conflicts = [],
              auto_resolved = False\<rparr>,
        (repo_world, [cmd_rev_parse, cmd_status, cmd_fetch, cmd_pull (Some ''main'')]))"
    by (simp add: executor_defs fetch_timeout_host_def scripted_host_def repo_world_def cmd_defs
          splitlines_def strip_def isspace_def isspace2_def isspace3_def mk_PullResult_def)
  show "subprocess_run no_upstream_host cmd_rev_list (Some ''/repo'') repo_world =
       (Inr \<lparr>returncode = 128, stdout = [],
              stderr = ''fatal: no upstream configured for branch''\<rparr>, repo_world)"
    by (simp add: no_upstream_host_def scripted_host_def)
  show "pull_repository no_upstream_host ''smart_merge'' ''/repo'' (Some ''main'') (repo_world, []) =
       (Inr \<lparr>success = True, message = ''Already up to date.'', conflicts = [],
              auto_resolved = False\<rparr>,
        (repo_world,
         [cmd_rev_parse, cmd_status, cmd_fetch, cmd_rev_list, cmd_pull (Some ''main'')]))"
    by (simp add: executor_defs no_upstream_host_def scripted_host_def repo_world_def cmd_defs
          splitlines_def strip_def isspace_def isspace2_def isspace3_def mk_PullResult_def)
qed

lemma get_sync_status_steady:
  assumes "subprocess_run h cmd_fetch (Some path) w = (Inr fr, w)"
    and "subprocess_run h cmd_rev_list (Some path) w = (Inr rl, w)"
  shows "snd (get_sync_status h path (w, log)) = (w, log @ [cmd_fetch, cmd_rev_list])"
  using assms
  by (simp add: get_sync_status_def run_def Let_def split: option.splits)

lemma get_repo_status_steady:
  assumes ex: "path_exists h path w"
    and rp: "subprocess_run h cmd_rev_parse (Some path) w = (Inr rp, w)" "returncode rp = 0"
    and st: "subprocess_run h cmd_status (Some path) w = (Inr sr, w)"
    and fe: "subprocess_run h cmd_fetch (Some path) w = (Inr fr, w)"
    and rl: "subprocess_run h cmd_rev_list (Some path) w = (Inr rl, w)"
  shows "\<exists>status. get_repo_status h path (w, log) =
           (Inr status, (w, log @ [cmd_rev_parse, cmd_status, cmd_fetch, cmd_rev_list]))
         \<and> is_clean status =
             (fst (parse_status_loop (splitlines (stdout sr)) [] [] [] False) = []
              \<and> fst (snd (parse_status_loop (splitlines (stdout sr)) [] [] [] False)) = [])
         \<and> has_conflicts status =
             snd (snd (snd (parse_status_loop (splitlines (stdout sr)) [] [] [] False)))"
proof -
  obtain ab s3 where g: "get_sync_status h path (w, log @ [cmd_rev_parse, cmd_status]) = (ab, s3)"
    by (cases "get_sync_status h path (w, log @ [cmd_rev_parse, cmd_status])") auto
  have s3: "s3 = (w, log @ [cmd_rev_parse, cmd_status, cmd_fetch, cmd_rev_list])"
    using get_sync_status_steady [OF fe rl, of "log @ [cmd_rev_parse, cmd_status]"] g by simp
  obtain un mo sg co where
    p: "parse_status_loop (splitlines (stdout sr)) [] [] [] False = (un, mo, sg, co)"
    by (cases "parse_status_loop (splitlines (stdout sr)) [] [] [] False") auto
  show ?thesis
    using ex rp st g s3 p
    by (cases ab) (simp add: get_repo_status_def get_repo_status_body_def run_def)
qed

text \<open>
  Claim C8. On an existing repository where the status query finds nothing untracked,
  modified or conflicted, where the status, fetch and count queries leave the world as
  it is, and where the pull exits with 0 and leaves the world as it is,
  \<open>pull_repository\<close> returns a success with no conflicts, having run only those five
  commands (no stash, no staging, no write); the world is unchanged, and a second call
  returns the same result and again leaves the world unchanged.
\<close>

theorem clean_pull_is_idempotent:
  assumes ex: "path_exists h path w"
    and rp: "subprocess_run h cmd_rev_parse (Some path) w = (Inr rp, w)" "returncode rp = 0"
    and st: "subprocess_run h cmd_status (Some path) w = (Inr sr, w)"
    and clean: "parse_status_loop (splitlines (stdout sr)) [] [] [] False = ([], [], staged, False)"
    and fe: "subprocess_run h cmd_fetch (Some path) w = (Inr fr, w)"
    and rl: "subprocess_run h cmd_rev_list (Some path) w = (Inr rl, w)"
    and pl: "subprocess_run h (cmd_pull br) (Some path) w = (Inr pr, w)" "returncode pr = 0"
  shows "pull_repository h strategy path br (w, log) =
           (Inr \<lparr>success = True, message = strip (stdout pr), conflicts = [],
                  auto_resolved = False\<rparr>,
            (w, log @ [cmd_rev_parse, cmd_status, cmd_fetch, cmd_rev_list, cmd_pull br]))
         \<and> fst (pull_repository h strategy path br
                  (snd (pull_repository h strategy path br (w, log)))) =
             fst (pull_repository h strategy path br (w, log))
         \<and> fst (snd (pull_repository h strategy path br
                  (snd (pull_repository h strategy path br (w, log))))) = w"
proof -
  have one: "pull_repository h strategy path br (w, l) =
           (Inr \<lparr>success = True, message = strip (stdout pr), conflicts = [],
                  auto_resolved = False\<rparr>,
            (w, l @ [cmd_rev_parse, cmd_status, cmd_fetch, cmd_rev_list, cmd_pull br]))" for l
  proof -
    obtain status where g: "get_repo_status h path (w, l) =
           (Inr status, (w, l @ [cmd_rev_parse, cmd_status, cmd_fetch, cmd_rev_list]))"
      and c: "is_clean status" "\<not> has_conflicts status"
      using get_repo_status_steady [OF ex rp st fe rl, of l] clean by auto
    show ?thesis
      using ex g c pl
      by (simp add: pull_repository_def pull_repository_body_def stash_if_dirty_def
            finish_pull_def run_def mk_PullResult_def)
  qed
  show ?thesis
    by (simp add: one)
qed

theorem clean_pull_is_idempotent_witness:
  "path_exists clean_repo_host ''/repo'' repo_world
   \<and> parse_status_loop (splitlines []) [] [] [] False = ([], [], [], False)
   \<and> pull_repository clean_repo_host ''smart_merge'' ''/repo'' (Some ''main'') (repo_world, []) =
       (Inr \<lparr>success = True, message = ''Already up to date.'', conflicts = [],
              auto_resolved = False\<rparr>,
        (repo_world,
         [cmd_rev_parse, cmd_status, cmd_fetch, cmd_rev_list, cmd_pull (Some ''main'')]))"
proof -
  let ?ok = "\<lparr>returncode = 0, stdout = [], stderr = []\<rparr>"
  let ?pr = "\<lparr>returncode = 0, stdout = ''Already up to date.\<newline>'', stderr = []\<rparr>"
  have ex: "path_exists clean_repo_host ''/repo'' repo_world"
    by (simp add: clean_repo_host_def scripted_host_def repo_world_def)
  have rp: "subprocess_run clean_repo_host cmd_rev_parse (Some ''/repo'') repo_world
              = (Inr ?ok, repo_world)"
    by (simp add: clean_repo_host_def scripted_host_def cmd_rev_parse_def cmd_pull_def)
  have st: "subprocess_run clean_repo_host cmd_status (Some ''/repo'') repo_world
              = (Inr ?ok, repo_world)"
    by (simp add: clean_repo_host_def scripted_host_def cmd_status_def cmd_pull_def)
  have fe: "subprocess_run clean_repo_host cmd_fetch (Some ''/repo'') repo_world
              = (Inr ?ok, repo_world)"
    by (simp add: clean_repo_host_def scripted_host_def cmd_fetch_def cmd_pull_def)
  have rl: "subprocess_run clean_repo_host cmd_rev_list (Some ''/repo'') repo_world
              = (Inr ?ok, repo_world)"
    by (simp add: clean_repo_host_def scripted_host_def cmd_rev_list_def cmd_pull_def)
  have pl: "subprocess_run clean_repo_host (cmd_pull (Some ''main'')) (Some ''/repo'') repo_world
              = (Inr ?pr, repo_world)"
    by (simp add: clean_repo_host_def scripted_host_def)
  have cl: "parse_status_loop (splitlines (stdout ?ok)) [] [] [] False = ([], [], [], False)"
    by (simp add: splitlines_def)
  have sp: "strip (stdout ?pr) = ''Already up to date.''"
    by (simp add: strip_def isspace_def isspace2_def isspace3_def)
  have "pull_repository clean_repo_host ''smart_merge'' ''/repo'' (Some ''main'') (repo_world, []) =
       (Inr \<lparr>success = True, message = strip (stdout ?pr), conflicts = [],
              auto_resolved = False\<rparr>,
        (repo_world,
         [] @ [cmd_rev_parse, cmd_status, cmd_fetch, cmd_rev_list, cmd_pull (Some ''main'')]))"
    using clean_pull_is_idempotent [OF ex rp _ st cl fe rl pl, of "''smart_merge''" "[]"]
    by simp
  then show ?thesis
    using ex cl sp by simp
qed

subsection \<open>The conflict list of a failed pull\<close>

lemma find_after_sound:
  "find_after pat t = Some r \<Longrightarrow> \<exists>a. t = a @ pat @ r"
proof (induction t)
  case Nil
  then show ?case by (simp split: if_splits)
next
  case (Cons c cs)
  show ?case
  proof (cases "prefix pat (c # cs)")
    case True
    with Cons.prems have "r = drop (length pat) (c # cs)" by simp
    moreover from True obtain z where "c # cs = pat @ z" by (auto simp: prefix_def)
    ultimately have "c # cs = [] @ pat @ r" by simp
    then show ?thesis by blast
  next
    case False
    with Cons.prems have "find_after pat cs = Some r" by simp
    with Cons.IH obtain a where "cs = a @ pat @ r" by blast
    then have "c # cs = (c # a) @ pat @ r" by simp
    then show ?thesis by blast
  qed
qed

lemma find_after_first:
  "t = a @ pat @ r \<Longrightarrow> \<exists>y. find_after pat t = Some (y @ r)"
proof (induction t arbitrary: a)
  case Nil
  then show ?case by simp
next
  case (Cons c cs)
  show ?case
  proof (cases "prefix pat (c # cs)")
    case True
    then have f: "find_after pat (c # cs) = Some (drop (length pat) (c # cs))" by simp
    have "length (a @ pat @ r) - length r \<ge> length pat" by simp
    have "drop (length pat) (c # cs) = drop (length pat) (a @ pat @ r)" using Cons.prems by simp
    also have "\<dots> = drop (length pat) (a @ pat) @ r" by simp
    finally have "find_after pat (c # cs) = Some (drop (length pat) (a @ pat) @ r)"
      using f by simp
    then show ?thesis by blast
  next
    case False
    then have f: "find_after pat (c # cs) = find_after pat cs" by simp
    have "a \<noteq> []"
    proof
      assume "a = []"
      with Cons.prems have "prefix pat (c # cs)" by (simp add: prefix_def)
      with False show False by simp
    qed
    then obtain a' where "a = c # a'" using Cons.prems by (cases a) auto
    with Cons.prems have "cs = a' @ pat @ r" by simp
    from Cons.IH [OF this] f show ?thesis by simp
  qed
qed

text \<open>The model of the regular expression search matches a line exactly when the line
  has \<open>CONFLICT\<close>, later \<^verbatim>\<open>in \<close>, and at least one character after it.\<close>

lemma conflict_match_iff:
  "conflict_match line \<noteq> None \<longleftrightarrow>
     (\<exists>a b c. line = a @ ''CONFLICT'' @ b @ ''in '' @ c \<and> c \<noteq> [])"
proof
  assume "conflict_match line \<noteq> None"
  then obtain rest g where 1: "find_after ''CONFLICT'' line = Some rest"
    and 2: "find_after ''in '' rest = Some g" and 3: "g \<noteq> []"
    by (auto simp: conflict_match_def split: option.splits if_splits)
  from find_after_sound [OF 1] obtain a where "line = a @ ''CONFLICT'' @ rest" by blast
  moreover from find_after_sound [OF 2] obtain b where "rest = b @ ''in '' @ g" by blast
  ultimately have "line = a @ ''CONFLICT'' @ b @ ''in '' @ g" by simp
  with 3 show "\<exists>a b c. line = a @ ''CONFLICT'' @ b @ ''in '' @ c \<and> c \<noteq> []" by blast
next
  assume "\<exists>a b c. line = a @ ''CONFLICT'' @ b @ ''in '' @ c \<and> c \<noteq> []"
  then obtain a b c where l: "line = a @ ''CONFLICT'' @ (b @ ''in '' @ c)" and c: "c \<noteq> []"
    by auto
  from find_after_first [OF l] obtain y where
    1: "find_after ''CONFLICT'' line = Some (y @ b @ ''in '' @ c)" by auto
  have "y @ b @ ''in '' @ c = (y @ b) @ ''in '' @ c" by simp
  from find_after_first [OF this] obtain z where
    2: "find_after ''in '' (y @ b @ ''in '' @ c) = Some (z @ c)" by auto
  from 1 2 c show "conflict_match line \<noteq> None"
    by (simp add: conflict_match_def)
qed

lemma parse_conflicts_loop_none:
  "list_all (\<lambda>line. conflict_match line = None) ls \<Longrightarrow> parse_conflicts_loop ls found = found"
  by (induction ls arbitrary: found) simp_all

lemma parse_conflicts_none:
  assumes "\<forall>line \<in> set (split_nl err).
             \<not> (\<exists>a b c. line = a @ ''CONFLICT'' @ b @ ''in '' @ c \<and> c \<noteq> [])"
  shows "parse_conflicts err = []"
proof -
  have "conflict_match line = None" if "line \<in> set (split_nl err)" for line
    using assms that conflict_match_iff [of line] by blast
  then have "list_all (\<lambda>line. conflict_match line = None) (split_nl err)"
    by (simp add: list_all_iff)
  then show ?thesis by (simp add: parse_conflicts_def parse_conflicts_loop_none)
qed

section \<open>Properties of the gate check\<close>

lemma scan_process_lines_iff:
  "scan_process_lines ls \<longleftrightarrow>
     \<not> (\<exists>line \<in> set ls.
           contains ''repo-manager'' line \<and> contains ''monitor'' line \<and> \<not> contains ''grep'' line)"
  by (induction ls) auto

text \<open>
  Claim C9. The gate check answers idle without running anything when the dependency is
  switched off, answers idle when the process list cannot be had (the query raises or
  exits with a code other than 0), and answers busy exactly when the dependency is on,
  the query succeeds, and some line of its output names the monitor of the cooperating
  tool and is not a \<open>grep\<close>.
\<close>

theorem gate_check_fail_open:
  "(\<not> repo_manager_dependency config \<longrightarrow> is_repo_manager_idle h config s = (True, s))
   \<and> (\<forall>e s1. run h cmd_ps None s = (Inl e, s1) \<longrightarrow> fst (is_repo_manager_idle h config s))
   \<and> (\<forall>r s1. run h cmd_ps None s = (Inr r, s1) \<and> returncode r \<noteq> 0 \<longrightarrow>
         fst (is_repo_manager_idle h config s))
   \<and> (\<not> fst (is_repo_manager_idle h config s) \<longleftrightarrow>
         repo_manager_dependency config
         \<and> (\<exists>r s1. run h cmd_ps None s = (Inr r, s1) \<and> returncode r = 0
              \<and> (\<exists>line \<in> set (split_nl (stdout r)).
                    contains ''repo-manager'' line \<and> contains ''monitor'' line
                    \<and> \<not> contains ''grep'' line)))"
proof -
  obtain x s1 where r: "run h cmd_ps None s = (x, s1)"
    by (cases "run h cmd_ps None s") auto
  show ?thesis
  proof (cases x)
    case (Inl e)
    with r show ?thesis by (simp add: is_repo_manager_idle_def)
  next
    case (Inr c)
    with r show ?thesis by (auto simp: is_repo_manager_idle_def scan_process_lines_iff)
  qed
qed

theorem gate_check_fail_open_witness:
  "repo_manager_dependency default_config
   \<and> (\<exists>r s1. run monitor_host cmd_ps None ([], []) = (Inr r, s1) \<and> returncode r = 0
          \<and> (\<exists>line \<in> set (split_nl (stdout r)).
                contains ''repo-manager'' line \<and> contains ''monitor'' line
                \<and> \<not> contains ''grep'' line))
   \<and> \<not> fst (is_repo_manager_idle monitor_host default_config ([], []))"
proof -
  let ?s = "([], []) :: (string \<times> string) list state"
  have d: "repo_manager_dependency default_config"
    by (simp add: default_config_def)
  have p: "\<exists>r s1. run monitor_host cmd_ps None ?s = (Inr r, s1) \<and> returncode r = 0
          \<and> (\<exists>line \<in> set (split_nl (stdout r)).
                contains ''repo-manager'' line \<and> contains ''monitor'' line
                \<and> \<not> contains ''grep'' line)"
    by (simp add: run_def monitor_host_def scripted_host_def split_nl_def newline_def)
  have "\<not> fst (is_repo_manager_idle monitor_host default_config ?s)"
    using d p gate_check_fail_open [of default_config monitor_host ?s] by blast
  with d p show ?thesis by blast
qed

section \<open>Properties of the scheduler\<close>

lemma thread_after_pull:
  assumes ex: "path_exists h (repo_path m) (fst s)"
    and pulled: "pull_repository h strategy (repo_path m) (Some (branch m)) s = (Inr result, s1)"
    and store: "sqlite_transaction h (fst s1) = (None, w2)"
  shows "pull_repository_thread h strategy m (s, db) =
           (Inr (), ((w2, snd s1),
              committed_update (row_id m) (persisted_status result) (Some (message result))
                (current_timestamp h w2) db))"
  using assms
  by (simp add: pull_repository_thread_def pull_repository_thread_body_def
        update_pull_status_def persisted_status_def)

lemma thread_outcome:
  assumes pulled: "pull_repository h strategy (repo_path m) (Some (branch m)) s = (Inr result, s1)"
  shows "pull_repository_thread h strategy m (s, db) =
           (case sqlite_transaction h (fst s1) of
              (None, w2) \<Rightarrow>
                (Inr (), ((w2, snd s1),
                   committed_update (row_id m) (persisted_status result) (Some (message result))
                     (current_timestamp h w2) db))
            | (Some e, w2) \<Rightarrow>
                (case sqlite_transaction h w2 of
                   (None, w3) \<Rightarrow>
                     (Inr (), ((w3, snd s1),
                        committed_update (row_id m) ''failed''
                          (Some (msg_thread_exception @ exc_str e)) (current_timestamp h w3) db))
                 | (Some e', w3) \<Rightarrow> (Inl e', ((w3, snd s1), db))))"
proof -
  have exc: "is_Exception e" for e by (cases e) simp_all
  have body: "pull_repository_thread_body h strategy m (s, db) =
                update_pull_status h (row_id m) (persisted_status result)
                  (Some (message result)) (s1, db)"
  proof (cases "path_exists h (repo_path m) (fst s)")
    case False
    with pulled have "result = mk_PullResult False (msg_path_missing @ repo_path m) []" "s1 = s"
      by (simp_all add: pull_repository_def)
    with False show ?thesis
      by (simp add: pull_repository_thread_body_def persisted_status_def mk_PullResult_simps)
  next
    case True
    with pulled show ?thesis
      by (simp add: pull_repository_thread_body_def persisted_status_def)
  qed
  show ?thesis
    unfolding pull_repository_thread_def body
    by (simp add: update_pull_status_def exc split: prod.splits option.splits)
qed

lemma committed_update_tables:
  "pull_logs (committed_update i st msg now db) =
     pull_logs db @
       [\<lparr>log_mapping_id = i, action = ''pull'', status = st, log_message = msg,
         timestamp = now\<rparr>]"
  "folder_repo_mappings (committed_update i st msg now db) =
     map (\<lambda>row. if i \<noteq> None \<and> row_id row = i
                then row\<lparr>pull_status := st, last_pull_at := Some now, updated_at := Some now\<rparr>
                else row)
       (folder_repo_mappings db)"
  by (simp_all add: committed_update_def set_pull_status_def fun_eq_iff cong: map_cong)

text \<open>
  Claim C7, as amended. Every sync of a mapping ends with a result of
  \<open>pull_repository\<close>, and what the scheduler then leaves in the store depends on the
  store alone:
  \<^item> when the status update commits, the recorded status is \<open>success\<close> for a successful
    result, \<open>conflict\<close> for a failure with conflicts and \<open>failed\<close> for a failure
    without, with the message of the result;
  \<^item> when the status update raises, the scheduler makes a second update, and when that
    one commits the recorded status is \<open>failed\<close>, whatever the result was, with the
    message of the exception;
  \<^item> when the second update raises too, the store is as before and the exception leaves
    the scheduler's task.
  In every case the store after the task has either both tables as before, or the
  status and the last-sync time of the mapping's row set and exactly one log entry
  added, with the same status and time.
\<close>

theorem sync_status_is_persisted:
  "\<exists>result s1.
      pull_repository h strategy (repo_path m) (Some (branch m)) s = (Inr result, s1)
    \<and> pull_repository_thread h strategy m (s, db) =
        (case sqlite_transaction h (fst s1) of
           (None, w2) \<Rightarrow>
             (Inr (), ((w2, snd s1),
                committed_update (row_id m) (persisted_status result) (Some (message result))
                  (current_timestamp h w2) db))
         | (Some e, w2) \<Rightarrow>
             (case sqlite_transaction h w2 of
                (None, w3) \<Rightarrow>
                  (Inr (), ((w3, snd s1),
                     committed_update (row_id m) ''failed''
                       (Some (msg_thread_exception @ exc_str e)) (current_timestamp h w3) db))
              | (Some e', w3) \<Rightarrow> (Inl e', ((w3, snd s1), db))))
    \<and> (pull_logs (snd (snd (pull_repository_thread h strategy m (s, db)))) = pull_logs db
         \<and> folder_repo_mappings (snd (snd (pull_repository_thread h strategy m (s, db))))
             = folder_repo_mappings db
       \<or> (\<exists>st msg now.
            pull_logs (snd (snd (pull_repository_thread h strategy m (s, db)))) =
              pull_logs db @
                [\<lparr>log_mapping_id = row_id m, action = ''pull'', status = st,
                  log_message = msg, timestamp = now\<rparr>]
          \<and> folder_repo_mappings (snd (snd (pull_repository_thread h strategy m (s, db)))) =
              map (\<lambda>row. if row_id m \<noteq> None \<and> row_id row = row_id m
                         then row\<lparr>pull_status := st, last_pull_at := Some now,
                                updated_at := Some now\<rparr>
                         else row)
                (folder_repo_mappings db)))"
proof -
  let ?T = "pull_repository_thread h strategy m (s, db)"
  obtain result s1 where
    pulled: "pull_repository h strategy (repo_path m) (Some (branch m)) s = (Inr result, s1)"
    using pull_repository_total [of h strategy "repo_path m" "Some (branch m)" s] by blast
  note t = thread_outcome [OF pulled, of db]
  obtain o1 w2 where first: "sqlite_transaction h (fst s1) = (o1, w2)"
    by (cases "sqlite_transaction h (fst s1)") auto
  obtain o2 w3 where second: "sqlite_transaction h w2 = (o2, w3)"
    by (cases "sqlite_transaction h w2") auto
  have written: "snd (snd ?T) = db
      \<or> (\<exists>st msg now. snd (snd ?T) = committed_update (row_id m) st msg now db)"
  proof (cases o1)
    case None
    with first have "snd (snd ?T) =
        committed_update (row_id m) (persisted_status result) (Some (message result))
          (current_timestamp h w2) db"
      by (simp add: t)
    then show ?thesis by (intro disjI2 exI)
  next
    case e: (Some e)
    show ?thesis
    proof (cases o2)
      case None
      with e first second have "snd (snd ?T) =
          committed_update (row_id m) ''failed'' (Some (msg_thread_exception @ exc_str e))
            (current_timestamp h w3) db"
        by (simp add: t)
      then show ?thesis by (intro disjI2 exI)
    next
      case (Some e')
      with e first second have "snd (snd ?T) = db" by (simp add: t)
      then show ?thesis by (rule disjI1)
    qed
  qed
  have tables: "pull_logs (snd (snd ?T)) = pull_logs db
         \<and> folder_repo_mappings (snd (snd ?T)) = folder_repo_mappings db
       \<or> (\<exists>st msg now.
            pull_logs (snd (snd ?T)) =
              pull_logs db @
                [\<lparr>log_mapping_id = row_id m, action = ''pull'', status = st,
                  log_message = msg, timestamp = now\<rparr>]
          \<and> folder_repo_mappings (snd (snd ?T)) =
              map (\<lambda>row. if row_id m \<noteq> None \<and> row_id row = row_id m
                         then row\<lparr>pull_status := st, last_pull_at := Some now,
                                updated_at := Some now\<rparr>
                         else row)
                (folder_repo_mappings db))"
    using written
  proof
    assume same: "snd (snd ?T) = db"
    have "pull_logs (snd (snd ?T)) = pull_logs db
         \<and> folder_repo_mappings (snd (snd ?T)) = folder_repo_mappings db"
      unfolding same by simp
    then show ?thesis by (rule disjI1)
  next
    assume "\<exists>st msg now. snd (snd ?T) = committed_update (row_id m) st msg now db"
    then obtain st msg now where
      changed: "snd (snd ?T) = committed_update (row_id m) st msg now db" by blast
    have "pull_logs (snd (snd ?T)) =
              pull_logs db @
                [\<lparr>log_mapping_id = row_id m, action = ''pull'', status = st,
                  log_message = msg, timestamp = now\<rparr>]
          \<and> folder_repo_mappings (snd (snd ?T)) =
              map (\<lambda>row. if row_id m \<noteq> None \<and> row_id row = row_id m
                         then row\<lparr>pull_status := st, last_pull_at := Some now,
                                updated_at := Some now\<rparr>
                         else row)
                (folder_repo_mappings db)"
      unfolding changed by (intro conjI) (rule committed_update_tables)+
    then show ?thesis by (intro disjI2 exI)
  qed
  show ?thesis
    by (rule exI [of _ result], rule exI [of _ s1], intro conjI) (rule pulled t tables)+
qed

lemma clean_run:
  "pull_repository clean_repo_host ''smart_merge'' ''/repo'' (Some ''main'') (repo_world, []) =
     (Inr \<lparr>success = True, message = ''Already up to date.'', conflicts = [],
            auto_resolved = False\<rparr>,
      (repo_world, [cmd_rev_parse, cmd_status, cmd_fetch, cmd_rev_list, cmd_pull (Some ''main'')]))"
  by (simp add: executor_defs scripted_host_def clean_repo_host_def repo_world_def cmd_defs splitlines_def strip_def isspace_def isspace2_def isspace3_def
        mk_PullResult_def)

theorem sync_status_is_persisted_witness:
  "sqlite_transaction clean_repo_host repo_world = (None, repo_world)
   \<and> pull_repository_thread clean_repo_host ''smart_merge'' demo_mapping
        ((repo_world, []), demo_db) =
       (Inr (), ((repo_world,
           [cmd_rev_parse, cmd_status, cmd_fetch, cmd_rev_list, cmd_pull (Some ''main'')]),
          \<lparr>folder_repo_mappings =
             [demo_mapping\<lparr>pull_status := ''success'', last_pull_at := Some ''2024-01-01 00:00:00'',
                updated_at := Some ''2024-01-01 00:00:00''\<rparr>],
           pull_logs =
             [\<lparr>log_mapping_id = Some 1, action = ''pull'', status = ''success'',
               log_message = Some ''Already up to date.'',
               timestamp = ''2024-01-01 00:00:00''\<rparr>]\<rparr>))"
proof -
  let ?r = "\<lparr>success = True, message = ''Already up to date.'', conflicts = [],
            auto_resolved = False\<rparr>"
  let ?s1 = "(repo_world,
    [cmd_rev_parse, cmd_status, cmd_fetch, cmd_rev_list, cmd_pull (Some ''main'')])"
  have m: "repo_path demo_mapping = ''/repo''" "branch demo_mapping = ''main''"
    "row_id demo_mapping = Some 1"
    by (simp_all add: demo_mapping_def)
  have store: "sqlite_transaction clean_repo_host repo_world = (None, repo_world)"
    by (simp add: scripted_host_def clean_repo_host_def)
  have ts: "current_timestamp clean_repo_host repo_world = ''2024-01-01 00:00:00''"
    by (simp add: scripted_host_def clean_repo_host_def)
  have cu: "committed_update (Some 1) ''success'' (Some ''Already up to date.'')
      ''2024-01-01 00:00:00'' demo_db =
        \<lparr>folder_repo_mappings =
             [demo_mapping\<lparr>pull_status := ''success'', last_pull_at := Some ''2024-01-01 00:00:00'',
                updated_at := Some ''2024-01-01 00:00:00''\<rparr>],
           pull_logs =
             [\<lparr>log_mapping_id = Some 1, action = ''pull'', status = ''success'',
               log_message = Some ''Already up to date.'',
               timestamp = ''2024-01-01 00:00:00''\<rparr>]\<rparr>"
    by (simp add: committed_update_def set_pull_status_def demo_db_def m)
  obtain result s1 where
    pulled: "pull_repository clean_repo_host ''smart_merge'' (repo_path demo_mapping)
      (Some (branch demo_mapping)) (repo_world, []) = (Inr result, s1)"
    and t: "pull_repository_thread clean_repo_host ''smart_merge'' demo_mapping
        ((repo_world, []), demo_db) =
        (case sqlite_transaction clean_repo_host (fst s1) of
           (None, w2) \<Rightarrow>
             (Inr (), ((w2, snd s1),
                committed_update (row_id demo_mapping) (persisted_status result)
                  (Some (message result)) (current_timestamp clean_repo_host w2) demo_db))
         | (Some e, w2) \<Rightarrow>
             (case sqlite_transaction clean_repo_host w2 of
                (None, w3) \<Rightarrow>
                  (Inr (), ((w3, snd s1),
                     committed_update (row_id demo_mapping) ''failed''
                       (Some (msg_thread_exception @ exc_str e))
                       (current_timestamp clean_repo_host w3) demo_db))
              | (Some e', w3) \<Rightarrow> (Inl e', ((w3, snd s1), demo_db))))"
    using sync_status_is_persisted
      [of clean_repo_host "''smart_merge''" demo_mapping "(repo_world, [])" demo_db]
    by blast
  from pulled clean_run have r: "result = ?r" "s1 = ?s1" by (simp_all add: m)
  have "pull_repository_thread clean_repo_host ''smart_merge'' demo_mapping
        ((repo_world, []), demo_db) =
       (Inr (), ((repo_world, snd ?s1),
          committed_update (Some 1) ''success'' (Some ''Already up to date.'')
            ''2024-01-01 00:00:00'' demo_db))"
    unfolding t r by (simp add: store ts m persisted_status_def)
  then show ?thesis
    using store by (simp add: cu)
qed

text \<open>
  The claim as stated fails where the first status update raises: on a store that is
  locked once, a pull that succeeded is recorded as \<open>failed\<close>.
\<close>

theorem successful_sync_recorded_as_failed_counterexample:
  "pull_repository flaky_store_host ''smart_merge'' ''/repo'' (Some ''main'') (locked_world, []) =
     (Inr \<lparr>success = True, message = ''Already up to date.'', conflicts = [],
            auto_resolved = False\<rparr>,
      (locked_world,
       [cmd_rev_parse, cmd_status, cmd_fetch, cmd_rev_list, cmd_pull (Some ''main'')]))
   \<and> pull_repository_thread flaky_store_host ''smart_merge'' demo_mapping
        ((locked_world, []), demo_db) =
       (Inr (), ((repo_world,
           [cmd_rev_parse, cmd_status, cmd_fetch, cmd_rev_list, cmd_pull (Some ''main'')]),
          \<lparr>folder_repo_mappings =
             [demo_mapping\<lparr>pull_status := ''failed'', last_pull_at := Some ''2024-01-01 00:00:00'',
                updated_at := Some ''2024-01-01 00:00:00''\<rparr>],
           pull_logs =
             [\<lparr>log_mapping_id = Some 1, action = ''pull'', status = ''failed'',
               log_message = Some (msg_thread_exception @ ''database is locked''),
               timestamp = ''2024-01-01 00:00:00''\<rparr>]\<rparr>))"
proof -
  let ?s1 = "(locked_world,
    [cmd_rev_parse, cmd_status, cmd_fetch, cmd_rev_list, cmd_pull (Some ''main'')])"
  have m: "repo_path demo_mapping = ''/repo''" "branch demo_mapping = ''main''"
    "row_id demo_mapping = Some 1"
    by (simp_all add: demo_mapping_def)
  have pulled: "pull_repository flaky_store_host ''smart_merge'' ''/repo'' (Some ''main'')
      (locked_world, []) =
     (Inr \<lparr>success = True, message = ''Already up to date.'', conflicts = [],
            auto_resolved = False\<rparr>, ?s1)"
    by (simp add: executor_defs scripted_host_def flaky_store_host_def clean_repo_host_def
          locked_world_def cmd_defs splitlines_def strip_def isspace_def isspace2_def isspace3_def mk_PullResult_def)
  have first: "sqlite_transaction flaky_store_host locked_world =
                 (Some (OtherException ''database is locked''), repo_world)"
    by (simp add: flaky_store_host_def locked_world_def repo_world_def)
  have second: "sqlite_transaction flaky_store_host repo_world = (None, repo_world)"
    by (simp add: flaky_store_host_def repo_world_def)
  have ts: "current_timestamp flaky_store_host repo_world = ''2024-01-01 00:00:00''"
    by (simp add: flaky_store_host_def clean_repo_host_def scripted_host_def)
  have ex: "path_exists flaky_store_host ''/repo'' locked_world"
    by (simp add: flaky_store_host_def clean_repo_host_def scripted_host_def locked_world_def)
  have "pull_repository_thread flaky_store_host ''smart_merge'' demo_mapping
        ((locked_world, []), demo_db) =
       (Inr (), ((repo_world, snd ?s1),
          committed_update (Some 1) ''failed''
            (Some (msg_thread_exception @ ''database is locked'')) ''2024-01-01 00:00:00''
            demo_db))"
    using pulled first second ts ex
    by (simp add: pull_repository_thread_def pull_repository_thread_body_def
          update_pull_status_def m)
  then show ?thesis
    using pulled by (simp add: committed_update_def set_pull_status_def demo_db_def m)
qed

lemma pull_fails_with_conflict_word:
  assumes ex: "path_exists h path (fst s)"
    and status: "get_repo_status h path s = (Inr st, s1)"
    and resolved:
      "(if has_conflicts st then resolve_conflicts h strategy path s1 else ([], s1)) = (u, s2)"
      "\<not> (has_conflicts st \<and> u \<noteq> [])"
    and stash: "stash_if_dirty h path st s2 = (Inr stashed, s3)"
    and pull: "run h (cmd_pull br) (Some path) s3 = (Inr pr, s4)"
    and fails: "returncode pr \<noteq> 0"
    and word: "contains ''conflict'' (lower (stderr pr))"
    and nofile: "\<forall>line \<in> set (split_nl (stderr pr)).
                   \<not> (\<exists>a b c. line = a @ ''CONFLICT'' @ b @ ''in '' @ c \<and> c \<noteq> [])"
  shows "pull_repository h strategy path br s =
           (Inr (mk_PullResult False (msg_pull_conflict @ stderr pr) []), s4)"
proof -
  have f: "finish_pull h path stashed pr s4 =
             (Inr (mk_PullResult False (msg_pull_conflict @ stderr pr) []), s4)"
    using fails word parse_conflicts_none [OF nofile] by (simp add: finish_pull_def)
  have "pull_repository_body h strategy path br s =
          (Inr (mk_PullResult False (msg_pull_conflict @ stderr pr) []), s4)"
  proof (cases "has_conflicts st")
    case True
    with resolved have "resolve_conflicts h strategy path s1 = ([], s2)" by simp
    with True status stash pull f show ?thesis by (simp add: pull_repository_body_def)
  next
    case False
    with resolved have "s2 = s1" by simp
    with False status stash pull f show ?thesis by (simp add: pull_repository_body_def)
  qed
  with ex show ?thesis by (simp add: pull_repository_def)
qed

text \<open>
  Claim C10. When the pull is reached and fails, its error text contains the word
  \<open>conflict\<close> in some mix of cases, and no line of it has \<open>CONFLICT\<close> followed by
  \<^verbatim>\<open>in \<close> and a file path, \<open>pull_repository\<close> returns a failure whose conflict list is
  empty, and the scheduler, when its store transaction commits, records \<open>failed\<close> for
  the mapping.
\<close>

theorem conflict_word_without_files_is_failed:
  assumes ex: "path_exists h (repo_path m) (fst s)"
    and status: "get_repo_status h (repo_path m) s = (Inr st, s1)"
    and resolved:
      "(if has_conflicts st then resolve_conflicts h strategy (repo_path m) s1 else ([], s1))
         = (u, s2)"
      "\<not> (has_conflicts st \<and> u \<noteq> [])"
    and stash: "stash_if_dirty h (repo_path m) st s2 = (Inr stashed, s3)"
    and pull: "run h (cmd_pull (Some (branch m))) (Some (repo_path m)) s3 = (Inr pr, s4)"
    and fails: "returncode pr \<noteq> 0"
    and word: "contains ''conflict'' (lower (stderr pr))"
    and nofile: "\<forall>line \<in> set (split_nl (stderr pr)).
                   \<not> (\<exists>a b c. line = a @ ''CONFLICT'' @ b @ ''in '' @ c \<and> c \<noteq> [])"
    and store: "sqlite_transaction h (fst s4) = (None, w5)"
  shows "pull_repository h strategy (repo_path m) (Some (branch m)) s =
           (Inr \<lparr>success = False, message = msg_pull_conflict @ stderr pr, conflicts = [],
                  auto_resolved = False\<rparr>, s4)
         \<and> pull_repository_thread h strategy m (s, db) =
             (Inr (), ((w5, snd s4),
                committed_update (row_id m) ''failed'' (Some (msg_pull_conflict @ stderr pr))
                  (current_timestamp h w5) db))"
proof -
  have p: "pull_repository h strategy (repo_path m) (Some (branch m)) s =
           (Inr (mk_PullResult False (msg_pull_conflict @ stderr pr) []), s4)"
    by (rule pull_fails_with_conflict_word [OF ex status resolved stash pull fails word nofile])
  show ?thesis
    using p thread_after_pull [OF ex p store, of db]
    by (simp add: persisted_status_def mk_PullResult_def)
qed

lemma status_word_host:
  "get_repo_status conflict_word_host ''/repo'' (repo_world, []) =
     (Inr \<lparr>is_clean = True, has_conflicts = False, ahead_commits = 0, behind_commits = 0,
            untracked_files = [], modified_files = [], staged_files = []\<rparr>,
      (repo_world, [cmd_rev_parse, cmd_status, cmd_fetch, cmd_rev_list]))"
  by (simp add: get_repo_status_def get_repo_status_body_def get_sync_status_def run_def
        scripted_host_def conflict_word_host_def repo_world_def cmd_defs splitlines_def strip_def)

lemma no_match_no_file:
  assumes "list_all (\<lambda>line. conflict_match line = None) ls"
  shows "\<forall>line \<in> set ls.
           \<not> (\<exists>a b c. line = a @ ''CONFLICT'' @ b @ ''in '' @ c \<and> c \<noteq> [])"
proof
  fix line
  assume "line \<in> set ls"
  with assms have "conflict_match line = None" by (simp add: list_all_iff)
  with conflict_match_iff [of line]
  show "\<not> (\<exists>a b c. line = a @ ''CONFLICT'' @ b @ ''in '' @ c \<and> c \<noteq> [])" by blast
qed

lemma lower_merge_failed: "contains ''conflict'' (lower merge_failed_text)"
  by code_simp

lemma merge_failed_lines:
  "list_all (\<lambda>line. conflict_match line = None) (split_nl merge_failed_text)"
  by code_simp

theorem conflict_word_without_files_is_failed_witness:
  "contains ''conflict'' (lower merge_failed_text)
   \<and> list_all (\<lambda>line. conflict_match line = None) (split_nl merge_failed_text)
   \<and> pull_repository conflict_word_host ''smart_merge'' (repo_path demo_mapping)
        (Some (branch demo_mapping)) (repo_world, []) =
       (Inr \<lparr>success = False, message = msg_pull_conflict @ merge_failed_text, conflicts = [],
              auto_resolved = False\<rparr>,
        (repo_world, [cmd_rev_parse, cmd_status, cmd_fetch, cmd_rev_list,
           cmd_pull (Some ''main'')]))
   \<and> pull_repository_thread conflict_word_host ''smart_merge'' demo_mapping
        ((repo_world, []), demo_db) =
       (Inr (), ((repo_world, [cmd_rev_parse, cmd_status, cmd_fetch, cmd_rev_list,
           cmd_pull (Some ''main'')]),
          committed_update (Some 1) ''failed'' (Some (msg_pull_conflict @ merge_failed_text))
            ''2024-01-01 00:00:00'' demo_db))"
proof -
  let ?h = conflict_word_host
  let ?st = "\<lparr>is_clean = True, has_conflicts = False, ahead_commits = 0, behind_commits = 0,
            untracked_files = [], modified_files = [], staged_files = []\<rparr>"
  let ?s1 = "(repo_world, [cmd_rev_parse, cmd_status, cmd_fetch, cmd_rev_list])"
  let ?s4 = "(repo_world, [cmd_rev_parse, cmd_status, cmd_fetch, cmd_rev_list,
           cmd_pull (Some ''main'')])"
  let ?pr = "\<lparr>returncode = 1, stdout = [], stderr = merge_failed_text\<rparr>"
  have m: "repo_path demo_mapping = ''/repo''" "branch demo_mapping = ''main''"
    "row_id demo_mapping = Some 1"
    by (simp_all add: demo_mapping_def)
  have ex: "path_exists ?h (repo_path demo_mapping) (fst (repo_world, []))"
    by (simp add: m scripted_host_def conflict_word_host_def repo_world_def)
  have status: "get_repo_status ?h (repo_path demo_mapping) (repo_world, []) = (Inr ?st, ?s1)"
    using status_word_host by (simp add: m)
  have resolved: "(if has_conflicts ?st
       then resolve_conflicts ?h ''smart_merge'' (repo_path demo_mapping) ?s1
       else ([], ?s1)) = ([], ?s1)" "\<not> (has_conflicts ?st \<and> [] \<noteq> ([] :: string list))"
    by simp_all
  have stash: "stash_if_dirty ?h (repo_path demo_mapping) ?st ?s1 = (Inr False, ?s1)"
    by (simp add: stash_if_dirty_def)
  have pull: "run ?h (cmd_pull (Some (branch demo_mapping))) (Some (repo_path demo_mapping)) ?s1
                = (Inr ?pr, ?s4)"
    by (simp add: m run_def scripted_host_def conflict_word_host_def repo_world_def)
  have fails: "returncode ?pr \<noteq> 0" by simp
  have word: "contains ''conflict'' (lower (stderr ?pr))"
    using lower_merge_failed by simp
  have nofile: "\<forall>line \<in> set (split_nl (stderr ?pr)).
                   \<not> (\<exists>a b c. line = a @ ''CONFLICT'' @ b @ ''in '' @ c \<and> c \<noteq> [])"
    using no_match_no_file [OF merge_failed_lines] by simp
  have store: "sqlite_transaction ?h (fst ?s4) = (None, repo_world)"
    by (simp add: scripted_host_def conflict_word_host_def repo_world_def)
  have ts: "current_timestamp ?h repo_world = ''2024-01-01 00:00:00''"
    by (simp add: scripted_host_def conflict_word_host_def repo_world_def)
  show ?thesis
    using conflict_word_without_files_is_failed
      [OF ex status resolved stash pull fails word nofile store, of demo_db]
      word merge_failed_lines
    by (simp add: m ts)
qed

lemma pending_loop_filter:
  assumes "\<forall>m \<in> set ms. auto_pull_enabled m \<longrightarrow>
             (case last_pull_at m of None \<Rightarrow> True
              | Some text \<Rightarrow> \<exists>l. fromisoformat h text = Inr (Naive l))"
  shows "pending_loop h now (pull_interval_minutes config * 60000000)
           (retry_failed_after_minutes config * 60000000) ms pending =
         Inr (pending @ filter (\<lambda>m. auto_pull_enabled m \<and> is_due h config now m) ms)"
  using assms
proof (induction ms arbitrary: pending)
  case Nil
  show ?case by simp
next
  case (Cons m ms)
  then have rest: "\<And>p. pending_loop h now (pull_interval_minutes config * 60000000)
           (retry_failed_after_minutes config * 60000000) ms p =
         Inr (p @ filter (\<lambda>m. auto_pull_enabled m \<and> is_due h config now m) ms)"
    by simp
  show ?case
  proof (cases "auto_pull_enabled m")
    case False
    then show ?thesis by (simp add: rest)
  next
    case True
    show ?thesis
    proof (cases "last_pull_at m")
      case None
      with True show ?thesis by (simp add: rest is_due_def)
    next
      case (Some t)
      with True Cons.prems obtain l where l: "fromisoformat h t = Inr (Naive l)"
        by auto
      with True Some show ?thesis
        by (simp add: rest is_due_def)
    qed
  qed
qed

text \<open>
  Claim C1, as amended. When the store can be read, the two configured intervals are in
  the range of a timedelta, and the stored time of every enabled mapping reads as a
  naive datetime, \<open>_get_pending_mappings\<close> returns, in the store's order, exactly the
  enabled mappings that are due: a mapping that was never synced is selected whatever
  the intervals in that range; after \<open>failed\<close> or \<open>conflict\<close> it is selected exactly
  when the time since the last sync has reached the retry interval; after any other
  status exactly when it has reached the pull interval; and a mapping that is switched
  off is never selected.
\<close>

theorem pending_mappings_are_the_due_ones:
  assumes store: "sqlite_transaction h (fst s) = (None, w1)"
    and pull_range: "- 999999999 \<le> pull_interval_minutes config div 1440"
      "pull_interval_minutes config div 1440 \<le> 999999999"
    and retry_range: "- 999999999 \<le> retry_failed_after_minutes config div 1440"
      "retry_failed_after_minutes config div 1440 \<le> 999999999"
    and stamps: "\<forall>m \<in> set (folder_repo_mappings db). auto_pull_enabled m \<longrightarrow>
             (case last_pull_at m of None \<Rightarrow> True
              | Some text \<Rightarrow> \<exists>l. fromisoformat h text = Inr (Naive l))"
  shows "fst (get_pending_mappings h config (s, db)) =
           filter (is_due h config (datetime_now h w1))
             (sort_key last_pull_at (filter auto_pull_enabled (folder_repo_mappings db)))
         \<and> (\<forall>m. m \<in> set (fst (get_pending_mappings h config (s, db))) \<longleftrightarrow>
               m \<in> set (folder_repo_mappings db) \<and> auto_pull_enabled m
               \<and> is_due h config (datetime_now h w1) m)"
proof -
  let ?all = "sort_key last_pull_at (filter auto_pull_enabled (folder_repo_mappings db))"
  have set_all: "set ?all = {m \<in> set (folder_repo_mappings db). auto_pull_enabled m}"
    by simp
  have ok: "\<forall>m \<in> set ?all. auto_pull_enabled m \<longrightarrow>
             (case last_pull_at m of None \<Rightarrow> True
              | Some text \<Rightarrow> \<exists>l. fromisoformat h text = Inr (Naive l))"
    using stamps by simp
  have en: "filter (\<lambda>m. auto_pull_enabled m \<and> is_due h config (datetime_now h w1) m) ?all =
            filter (is_due h config (datetime_now h w1)) ?all"
    by (rule filter_cong) auto
  have res: "fst (get_pending_mappings h config (s, db)) =
           filter (is_due h config (datetime_now h w1)) ?all"
    using store pull_range retry_range
      pending_loop_filter [OF ok, of "datetime_now h w1" config "[]"] en
    by (simp add: get_pending_mappings_def get_auto_pull_mappings_def timedelta_minutes_def)
  show ?thesis
    unfolding res using set_all by auto
qed

theorem pending_mappings_are_the_due_ones_witness:
  "sqlite_transaction calendar_host (fst (([], []) :: (string \<times> string) list state))
     = (None, [])
   \<and> demo_mapping \<in> set (fst (get_pending_mappings calendar_host default_config
         (([], []), five_mappings_db)))
   \<and> due_at_boundary \<in> set (fst (get_pending_mappings calendar_host default_config
         (([], []), five_mappings_db)))
   \<and> not_yet_due \<notin> set (fst (get_pending_mappings calendar_host default_config
         (([], []), five_mappings_db)))
   \<and> failed_recently \<notin> set (fst (get_pending_mappings calendar_host default_config
         (([], []), five_mappings_db)))
   \<and> switched_off \<notin> set (fst (get_pending_mappings calendar_host default_config
         (([], []), five_mappings_db)))"
proof -
  let ?s = "([], []) :: (string \<times> string) list state"
  let ?sel = "set (fst (get_pending_mappings calendar_host default_config (?s, five_mappings_db)))"
  note mapping_defs = demo_mapping_def due_at_boundary_def not_yet_due_def failed_recently_def
    switched_off_def
  have store: "sqlite_transaction calendar_host (fst ?s) = (None, [])"
    by (simp add: scripted_host_def calendar_host_def)
  have pull_range: "- 999999999 \<le> pull_interval_minutes default_config div 1440"
      "pull_interval_minutes default_config div 1440 \<le> 999999999"
    by (simp_all add: default_config_def)
  have retry_range: "- 999999999 \<le> retry_failed_after_minutes default_config div 1440"
      "retry_failed_after_minutes default_config div 1440 \<le> 999999999"
    by (simp_all add: default_config_def)
  have stamps: "\<forall>m \<in> set (folder_repo_mappings five_mappings_db). auto_pull_enabled m \<longrightarrow>
             (case last_pull_at m of None \<Rightarrow> True
              | Some t \<Rightarrow> \<exists>l. fromisoformat calendar_host t = Inr (Naive l))"
    by (simp add: five_mappings_db_def mapping_defs scripted_host_def calendar_host_def)
  have now: "datetime_now calendar_host [] = 900000000"
    by (simp add: scripted_host_def calendar_host_def)
  have sel: "m \<in> ?sel \<longleftrightarrow> m \<in> set (folder_repo_mappings five_mappings_db)
      \<and> auto_pull_enabled m \<and> is_due calendar_host default_config 900000000 m" for m
    using pending_mappings_are_the_due_ones
      [OF store pull_range retry_range stamps] now by simp
  have 1: "demo_mapping \<in> ?sel"
    unfolding sel by (simp add: five_mappings_db_def mapping_defs is_due_def)
  have 2: "due_at_boundary \<in> ?sel"
    unfolding sel
    by (simp add: five_mappings_db_def mapping_defs is_due_def scripted_host_def calendar_host_def default_config_def)
  have 3: "not_yet_due \<notin> ?sel"
    unfolding sel
    by (simp add: five_mappings_db_def mapping_defs is_due_def scripted_host_def calendar_host_def default_config_def)
  have 4: "failed_recently \<notin> ?sel"
    unfolding sel
    by (simp add: five_mappings_db_def mapping_defs is_due_def scripted_host_def calendar_host_def default_config_def)
  have 5: "switched_off \<notin> ?sel"
    unfolding sel by (simp add: mapping_defs)
  from store 1 2 3 4 5 show ?thesis by blast
qed

text \<open>
  The claim as stated fails for an interval outside the range of a timedelta: building
  the interval raises, the function answers with the empty list, and a mapping that was
  never synced is not selected.
\<close>

theorem never_synced_skipped_on_overflow_counterexample:
  "demo_mapping \<in> set (folder_repo_mappings demo_db)
   \<and> auto_pull_enabled demo_mapping
   \<and> last_pull_at demo_mapping = None
   \<and> fst (get_pending_mappings silent_host overflow_config (([], []), demo_db)) = []"
  by (simp add: demo_db_def demo_mapping_def get_pending_mappings_def
        get_auto_pull_mappings_def silent_host_def scripted_host_def overflow_config_def
        default_config_def timedelta_minutes_def)

end
